theory Spec2Isabelle
  imports Complex_Main "HOL-Library.Multiset" "HOL-Library.Log_Nat"
begin

section \<open>Python values shared by both modules\<close>

text \<open>
  Exceptions are values. The first five are the built-in classes that the modelled code or
  the graph library can raise; \<open>ExternalError\<close> stands for any other exception class raised
  inside an external library (SciPy, Qiskit), tagged with its class name. All of them derive
  from Python's \<open>Exception\<close>, so an \<open>except Exception\<close> clause catches every one.

  In the zero-noise module, and where the two functions are modelled over an object store,
  Python floats are idealised as \<open>real\<close>. In the layout module an error rate is a value
  of any type \<open>'v\<close> with an order, a zero and an addition. No law of arithmetic is assumed
  of that addition, so it may round as the addition of floats does, and every sum is
  written in the order in which the code adds. The order is taken to be linear: there is
  no NaN among the error rates. The type \<open>py_float\<close> below is one such type, with the
  rounding addition of Python's floats.
\<close>

datatype py_error =
    ValueError
  | TypeError
  | IndexError
  | KeyError
  | OverflowError
  | ExternalError string

subsection \<open>Floats with their rounding\<close>

text \<open>
  A Python float is an IEEE 754 binary64 number. A finite one is a rational \<open>m * 2 ^ e\<close> with
  \<open>\<bar>m\<bar> < 2 ^ 53\<close> and \<open>- 1074 \<le> e\<close>, and \<open>py_float\<close> holds the number it denotes. The sum of
  two floats, and the quotient of two integers, is the exact result rounded to the nearest
  such number, a tie going to the even \<open>m\<close>: \<open>round_binary64\<close>, where \<open>binary_exponent x\<close> is
  the \<open>e\<close> with \<open>2 ^ e \<le> x < 2 ^ (e + 1)\<close> and numbers below \<open>2 ^ - 1022\<close> are spaced as
  those just above. Results of magnitude \<open>2 ^ 1024\<close> and more, which Python gives as \<open>inf\<close>,
  are outside this type.
\<close>

definition pow2 :: "int \<Rightarrow> real" where
  "pow2 e = (if 0 \<le> e then 2 ^ nat e else 1 / 2 ^ nat (- e))"

definition round_half_even :: "real \<Rightarrow> int" where
  "round_half_even x =
     (let f = \<lfloor>x\<rfloor>; r = x - of_int f in
      if r < 1 / 2 then f else if 1 / 2 < r then f + 1 else if even f then f else f + 1)"

definition binary_exponent :: "real \<Rightarrow> int" where
  "binary_exponent x =
     (if 1 \<le> x then bitlen \<lfloor>x\<rfloor> - 1
      else let k = bitlen \<lfloor>1 / x\<rfloor> - 1 in if pow2 (- k) \<le> x then - k else - k - 1)"

definition round_binary64 :: "real \<Rightarrow> real" where
  "round_binary64 x =
     (if x = 0 then 0
      else
        let ulp = pow2 (max (binary_exponent \<bar>x\<bar>) (- 1022) - 52)
        in of_int (round_half_even (x / ulp)) * ulp)"

datatype py_float = PyFloat (float_value: real)

text \<open>
  \<open>0\<close> is the integer with which the code starts a total; added to a float it is converted
  to the float \<open>0.0\<close>. Floats are compared by the numbers they denote.
\<close>

instantiation py_float :: "{linorder, zero, plus}"
begin

definition zero_py_float :: py_float where
  "zero_py_float = PyFloat 0"

definition plus_py_float :: "py_float \<Rightarrow> py_float \<Rightarrow> py_float" where
  "plus_py_float a b = PyFloat (round_binary64 (float_value a + float_value b))"

definition less_eq_py_float :: "py_float \<Rightarrow> py_float \<Rightarrow> bool" where
  "less_eq_py_float a b \<longleftrightarrow> float_value a \<le> float_value b"

definition less_py_float :: "py_float \<Rightarrow> py_float \<Rightarrow> bool" where
  "less_py_float a b \<longleftrightarrow> float_value a < float_value b"

instance
  by standard (auto simp: less_eq_py_float_def less_py_float_def py_float.expand)

end

text \<open>\<open>a / b\<close> for two integers, as a float.\<close>

definition float_div :: "int \<Rightarrow> int \<Rightarrow> py_float" where
  "float_div a b = PyFloat (round_binary64 (of_int a / of_int b))"

section \<open>lab-2/utils.py: zero-noise extrapolation\<close>

subsection \<open>The three model functions\<close>

definition linear_model :: "real \<Rightarrow> real \<Rightarrow> real \<Rightarrow> real" where
  "linear_model x a b = a * x + b"

definition quadratic_model :: "real \<Rightarrow> real \<Rightarrow> real \<Rightarrow> real \<Rightarrow> real" where
  "quadratic_model x a b c = a * x\<^sup>2 + b * x + c"

definition exponential_model :: "real \<Rightarrow> real \<Rightarrow> real \<Rightarrow> real \<Rightarrow> real" where
  "exponential_model x a b c = a * exp (- b * x) + c"

text \<open>
  \<open>zne_method\<close> passes the model functions around as objects (to \<open>curve_fit\<close>, and back to
  its caller as \<open>fit_fn\<close>). \<open>fit_fn\<close> names the function object; \<open>call_fit_fn f x popt\<close> is
  the Python call \<open>f(x, *popt)\<close>, which raises \<open>TypeError\<close> when the unpacked sequence does
  not supply exactly the parameters of \<open>f\<close>.
\<close>

datatype fit_fn = LinearModel | QuadraticModel | ExponentialModel

fun call_fit_fn :: "fit_fn \<Rightarrow> real \<Rightarrow> real list \<Rightarrow> py_error + real" where
  "call_fit_fn LinearModel x [a, b] = Inr (linear_model x a b)"
| "call_fit_fn QuadraticModel x [a, b, c] = Inr (quadratic_model x a b c)"
| "call_fit_fn ExponentialModel x [a, b, c] = Inr (exponential_model x a b c)"
| "call_fit_fn _ _ _ = Inl TypeError"

subsection \<open>The external least-squares fit\<close>

text \<open>
  \<open>scipy.optimize.curve_fit\<close> is not code of this repository. A call is recorded with the
  arguments \<open>zne_method\<close> gives it (the keyword arguments \<open>p0\<close> and \<open>maxfev\<close> are \<open>None\<close>
  when left out), and the library is a parameter: any function from a call to either an
  exception or the fitted parameters \<open>popt\<close> (the covariance it also returns is discarded by
  the code).
\<close>

record fit_call =
  fit_f :: fit_fn
  fit_xdata :: "real list"
  fit_ydata :: "real list"
  fit_p0 :: "real list option"
  fit_maxfev :: "nat option"

type_synonym curve_fit = "fit_call \<Rightarrow> py_error + real list"

subsection \<open>zne_method\<close>

text \<open>
  One branch of \<open>zne_method\<close>: fit, evaluate the model at noise scale 0 with the fitted
  parameters, and return the tuple \<open>(zero_val, ydata, popt, fit_fn)\<close>. The first component
  of the result is the list of \<open>curve_fit\<close> calls that were performed.
\<close>

type_synonym zne_result = "real \<times> real list \<times> real list \<times> fit_fn"

definition fit_and_extrapolate ::
  "curve_fit \<Rightarrow> fit_call \<Rightarrow> real list \<Rightarrow> fit_call list \<times> (py_error + zne_result)" where
  "fit_and_extrapolate cf call ydata =
     (case cf call of
        Inl e \<Rightarrow> ([call], Inl e)
      | Inr popt \<Rightarrow>
          (case call_fit_fn (fit_f call) 0 popt of
             Inl e \<Rightarrow> ([call], Inl e)
           | Inr zero_val \<Rightarrow> ([call], Inr (zero_val, ydata, popt, fit_f call))))"

definition zne_method ::
  "curve_fit \<Rightarrow> string \<Rightarrow> real list \<Rightarrow> real list \<Rightarrow> fit_call list \<times> (py_error + zne_result)" where
  "zne_method cf method xdata ydata =
     (if method = ''linear'' then
        fit_and_extrapolate cf
          \<lparr>fit_f = LinearModel, fit_xdata = xdata, fit_ydata = ydata,
           fit_p0 = None, fit_maxfev = None\<rparr> ydata
      else if method = ''quadratic'' then
        fit_and_extrapolate cf
          \<lparr>fit_f = QuadraticModel, fit_xdata = xdata, fit_ydata = ydata,
           fit_p0 = None, fit_maxfev = None\<rparr> ydata
      else if method = ''exponential'' then
        fit_and_extrapolate cf
          \<lparr>fit_f = ExponentialModel, fit_xdata = xdata, fit_ydata = ydata,
           fit_p0 = Some [1, 1 / 10, 0], fit_maxfev = Some 5000\<rparr> ydata
      else ([], Inl ValueError))"

section \<open>lab-3/utils/utils.py: zigzag layouts\<close>

subsection \<open>Python sequences\<close>

text \<open>
  \<open>range(a, b)\<close> is the list \<open>[a..b - 1]\<close>, empty when \<open>b \<le> a\<close>. \<open>py_index xs i\<close> is
  \<open>xs[i]\<close>: a negative index counts from the end, and an index outside the list raises
  \<open>IndexError\<close>. \<open>py_slice_upto xs j\<close> is the slice \<open>xs[:j]\<close>, which never raises: a negative
  bound counts from the end and every bound is clipped to the list.
\<close>

definition py_range :: "int \<Rightarrow> int \<Rightarrow> int list" where
  "py_range a b = [a..b - 1]"

definition py_index :: "'a list \<Rightarrow> int \<Rightarrow> py_error + 'a" where
  "py_index xs i =
     (if 0 \<le> i \<and> i < int (length xs) then Inr (xs ! nat i)
      else if i < 0 \<and> - int (length xs) \<le> i then Inr (xs ! nat (int (length xs) + i))
      else Inl IndexError)"

definition py_slice_upto :: "'a list \<Rightarrow> int \<Rightarrow> 'a list" where
  "py_slice_upto xs j =
     (if j < 0 then take (nat (int (length xs) + j)) xs else take (nat j) xs)"

subsection \<open>The graph library's undirected graph\<close>

text \<open>
  \<open>rustworkx.PyGraph\<close> is external. The code only ever builds graphs by \<open>add_node\<close> and
  \<open>add_edge\<close> on a fresh graph, so node indices are the positions \<open>0, 1, 2, \<dots>\<close> in order of
  insertion: \<open>pg_nodes\<close> lists the node payloads by index and \<open>pg_edges\<close> lists the endpoint
  pairs by edge index, which is what \<open>edge_list()\<close> returns (every edge payload is \<open>None\<close>).
  \<open>add_edge\<close> takes unsigned indices, so a negative argument raises \<open>OverflowError\<close>, and it
  raises \<open>IndexError\<close> when an endpoint is not a node of the graph. Parallel edges are kept.
  \<open>G.copy()\<close> is the identity on values.
\<close>

record pygraph =
  pg_nodes :: "int list"
  pg_edges :: "(nat \<times> nat) list"

definition PyGraph :: pygraph where
  "PyGraph = \<lparr>pg_nodes = [], pg_edges = []\<rparr>"

definition add_node :: "pygraph \<Rightarrow> int \<Rightarrow> pygraph" where
  "add_node G payload = G\<lparr>pg_nodes := pg_nodes G @ [payload]\<rparr>"

definition add_edge :: "pygraph \<Rightarrow> int \<Rightarrow> int \<Rightarrow> py_error + pygraph" where
  "add_edge G a b =
     (if a < 0 \<or> b < 0 then Inl OverflowError
      else if nat a < length (pg_nodes G) \<and> nat b < length (pg_nodes G)
        then Inr (G\<lparr>pg_edges := pg_edges G @ [(nat a, nat b)]\<rparr>)
      else Inl IndexError)"

subsection \<open>create_linear_chains\<close>

text \<open>The two kinds of loop of \<open>create_linear_chains\<close>, over a range given as a list.\<close>

fun add_nodes :: "pygraph \<Rightarrow> int list \<Rightarrow> pygraph" where
  "add_nodes G [] = G"
| "add_nodes G (n # ns) = add_nodes (add_node G n) ns"

fun add_chain_edges :: "pygraph \<Rightarrow> int list \<Rightarrow> py_error + pygraph" where
  "add_chain_edges G [] = Inr G"
| "add_chain_edges G (n # ns) =
     (case add_edge G n (n + 1) of
        Inl e \<Rightarrow> Inl e
      | Inr G' \<Rightarrow> add_chain_edges G' ns)"

definition create_linear_chains :: "int \<Rightarrow> py_error + pygraph" where
  "create_linear_chains num_orbitals =
     (let G = add_nodes PyGraph (py_range 0 num_orbitals) in
      case add_chain_edges G (py_range 0 (num_orbitals - 1)) of
        Inl e \<Rightarrow> Inl e
      | Inr G \<Rightarrow>
          (let G = add_nodes G (py_range num_orbitals (2 * num_orbitals)) in
           add_chain_edges G (py_range num_orbitals (2 * num_orbitals - 1))))"

subsection \<open>create_lucj_zigzag_layout\<close>

text \<open>
  The inner \<open>for\<close> loop: the state is the graph \<open>G_new\<close> and the counter
  \<open>num_alpha_beta_qubits\<close>.
\<close>

fun add_alpha_beta :: "int \<Rightarrow> int list \<Rightarrow> pygraph \<times> int \<Rightarrow> py_error + pygraph \<times> int" where
  "add_alpha_beta num_orbitals [] (G_new, num_alpha_beta_qubits) =
     Inr (G_new, num_alpha_beta_qubits)"
| "add_alpha_beta num_orbitals (n # ns) (G_new, num_alpha_beta_qubits) =
     (if n mod 4 = 0 then
        (let new_node = 2 * num_orbitals + num_alpha_beta_qubits;
             G1 = add_node G_new new_node
         in case add_edge G1 n new_node of
              Inl e \<Rightarrow> Inl e
            | Inr G2 \<Rightarrow>
                (case add_edge G2 new_node (n + num_orbitals) of
                   Inl e \<Rightarrow> Inl e
                 | Inr G3 \<Rightarrow>
                     add_alpha_beta num_orbitals ns (G3, num_alpha_beta_qubits + 1)))
      else add_alpha_beta num_orbitals ns (G_new, num_alpha_beta_qubits))"

text \<open>
  The \<open>while not isomorphic\<close> loop. \<open>rustworkx.is_subgraph_isomorphic\<close> is external and is
  a parameter of the model, called with the arguments of the source. The loop need not
  terminate, so it is a partial function: \<open>None\<close> is a run that never returns,
  \<open>Some (Inl e)\<close> a run that raises, \<open>Some (Inr r)\<close> a run that returns \<open>r\<close>.
\<close>

type_synonym subgraph_oracle = "pygraph \<Rightarrow> pygraph \<Rightarrow> bool"

partial_function (option) lucj_loop ::
  "subgraph_oracle \<Rightarrow> int \<Rightarrow> pygraph \<Rightarrow> pygraph \<Rightarrow> int \<Rightarrow> (py_error + pygraph \<times> int) option" where
  "lucj_loop is_subgraph_isomorphic num_orbitals backend_coupling_graph G num_iters =
     (case add_alpha_beta num_orbitals (py_range 0 num_iters) (G, 0) of
        Inl e \<Rightarrow> Some (Inl e)
      | Inr (G_new, num_alpha_beta_qubits) \<Rightarrow>
          if is_subgraph_isomorphic backend_coupling_graph G_new
          then Some (Inr (G_new, num_alpha_beta_qubits))
          else lucj_loop is_subgraph_isomorphic num_orbitals backend_coupling_graph G (num_iters - 1))"

declare lucj_loop.simps [code]

definition create_lucj_zigzag_layout ::
  "subgraph_oracle \<Rightarrow> int \<Rightarrow> pygraph \<Rightarrow> (py_error + pygraph \<times> int) option" where
  "create_lucj_zigzag_layout is_subgraph_isomorphic num_orbitals backend_coupling_graph =
     (case create_linear_chains num_orbitals of
        Inl e \<Rightarrow> Some (Inl e)
      | Inr G \<Rightarrow> lucj_loop is_subgraph_isomorphic num_orbitals backend_coupling_graph G num_orbitals)"

text \<open>
  What the external test decides is not computed here, but its meaning is needed to say
  which parameters are sensible: \<open>second\<close> is subgraph-isomorphic to \<open>first\<close> when the nodes
  of \<open>second\<close> can be mapped one-to-one to nodes of \<open>first\<close> so that joined nodes go to
  joined nodes and, for the induced variant that the library uses by default, nodes that
  are not joined go to nodes that are not joined.
\<close>

definition adjacent :: "pygraph \<Rightarrow> nat \<Rightarrow> nat \<Rightarrow> bool" where
  "adjacent G a b \<longleftrightarrow> (a, b) \<in> set (pg_edges G) \<or> (b, a) \<in> set (pg_edges G)"

definition subgraph_isomorphic :: "bool \<Rightarrow> subgraph_oracle" where
  "subgraph_isomorphic induced first second \<longleftrightarrow>
     (\<exists>f. inj_on f {..<length (pg_nodes second)}
        \<and> (\<forall>a < length (pg_nodes second). f a < length (pg_nodes first))
        \<and> (\<forall>a < length (pg_nodes second). \<forall>b < length (pg_nodes second).
              adjacent second a b \<longrightarrow> adjacent first (f a) (f b))
        \<and> (induced \<longrightarrow>
             (\<forall>a < length (pg_nodes second). \<forall>b < length (pg_nodes second).
                adjacent first (f a) (f b) \<longrightarrow> adjacent second a b)))"

subsection \<open>lightweight_layout_error_scoring\<close>

text \<open>
  The backend is external. What the code reads from it: \<open>backend.properties()\<close>, an object
  with the methods \<open>gate_error(name, qubits)\<close> and \<open>readout_error(qubit)\<close>, each of which
  may raise; \<open>backend.configuration().basis_gates\<close>; and the coupling map. The coupling map
  is only read by \<open>_make_backend_cmap_pygraph\<close>, which makes the directed coupling graph
  symmetric and undirected and removes one of every two parallel edges, and whose result
  is only handed to the external graph search. Nothing below depends on which graph that
  is, so the backend carries the result: \<open>cmap_pygraph\<close> is the undirected coupling graph,
  or the exception raised while building it. The type \<open>'q\<close> is the type of the entries of
  a layout and \<open>'v\<close> the type of the error rates.
\<close>

record ('q, 'v) backend_properties =
  gate_error :: "string \<Rightarrow> 'q \<times> 'q \<Rightarrow> py_error + 'v"
  readout_error :: "'q \<Rightarrow> py_error + 'v"

record ('q, 'v) backend =
  properties :: "py_error + ('q, 'v) backend_properties"
  basis_gates :: "string list"
  cmap_pygraph :: "py_error + pygraph"

text \<open>
  \<open>(layout[edge[0]], layout[edge[1]])\<close>: a virtual edge is a pair of integer indices, and
  the physical edge is a tuple of two qubits.
\<close>

definition physical_edge :: "'q list \<Rightarrow> int \<times> int \<Rightarrow> py_error + 'q \<times> 'q" where
  "physical_edge layout edge =
     (case py_index layout (fst edge) of
        Inl e \<Rightarrow> Inl e
      | Inr a \<Rightarrow>
          (case py_index layout (snd edge) of
             Inl e \<Rightarrow> Inl e
           | Inr b \<Rightarrow> Inr (a, b)))"

text \<open>
  The parameter \<open>bad_czgate_edges\<close> has no declared type: an entry that lists a coupling
  may be written as a tuple \<open>(4, 3)\<close> or as a list \<open>[4, 3]\<close>. The code tests the physical
  edge, a tuple, with \<open>in\<close>, which compares with \<open>==\<close>: a tuple equals a tuple with the
  same elements, and never equals a list. Equality of \<open>py_seq\<close> values is that comparison,
  and \<open>edge_tuple\<close> is the tuple that the code tests.
\<close>

datatype 'q py_seq = PyTuple "'q list" | PyList "'q list"

definition edge_tuple :: "'q \<times> 'q \<Rightarrow> 'q py_seq" where
  "edge_tuple pe = PyTuple [fst pe, snd pe]"

text \<open>
  The loop that sets \<open>skip\<close>: it stops at the first virtual edge whose physical edge,
  as it is or reversed, is \<open>in bad_czgate_edges\<close>.
\<close>

fun uses_bad_edge :: "'q py_seq list \<Rightarrow> 'q list \<Rightarrow> (int \<times> int) list \<Rightarrow> py_error + bool" where
  "uses_bad_edge bad_czgate_edges layout [] = Inr False"
| "uses_bad_edge bad_czgate_edges layout (edge # virtual_edges) =
     (case physical_edge layout edge of
        Inl e \<Rightarrow> Inl e
      | Inr pe \<Rightarrow>
          if edge_tuple pe \<in> set bad_czgate_edges
             \<or> edge_tuple (snd pe, fst pe) \<in> set bad_czgate_edges
          then Inr True
          else uses_bad_edge bad_czgate_edges layout virtual_edges)"

text \<open>
  \<open>props.gate_error(two_q_gate_name, physical_edge)\<close> inside \<open>try\<close>, with the reversed edge
  looked up in the \<open>except Exception\<close> clause; an exception of the second lookup is not
  caught.
\<close>

definition lookup_gate_error ::
  "('q, 'v) backend_properties \<Rightarrow> string \<Rightarrow> 'q \<times> 'q \<Rightarrow> py_error + 'v" where
  "lookup_gate_error props two_q_gate_name pe =
     (case gate_error props two_q_gate_name pe of
        Inr ge \<Rightarrow> Inr ge
      | Inl _ \<Rightarrow> gate_error props two_q_gate_name (snd pe, fst pe))"

text \<open>
  The two accumulating loops; the last argument is the running total, and \<open>+=\<close> adds on
  the right of it.
\<close>

fun total_2q_error_loop ::
  "('q, 'v::plus) backend_properties \<Rightarrow> string \<Rightarrow> 'q list \<Rightarrow> (int \<times> int) list \<Rightarrow> 'v \<Rightarrow>
   py_error + 'v" where
  "total_2q_error_loop props two_q_gate_name layout [] total_2q_error = Inr total_2q_error"
| "total_2q_error_loop props two_q_gate_name layout (edge # virtual_edges) total_2q_error =
     (case physical_edge layout edge of
        Inl e \<Rightarrow> Inl e
      | Inr pe \<Rightarrow>
          (case lookup_gate_error props two_q_gate_name pe of
             Inl e \<Rightarrow> Inl e
           | Inr ge \<Rightarrow>
               total_2q_error_loop props two_q_gate_name layout virtual_edges
                 (total_2q_error + ge)))"

fun total_measurement_error_loop ::
  "('q, 'v::plus) backend_properties \<Rightarrow> 'q list \<Rightarrow> 'v \<Rightarrow> py_error + 'v" where
  "total_measurement_error_loop props [] total_measurement_error = Inr total_measurement_error"
| "total_measurement_error_loop props (qubit # layout) total_measurement_error =
     (case readout_error props qubit of
        Inl e \<Rightarrow> Inl e
      | Inr meas_error \<Rightarrow>
          total_measurement_error_loop props layout (total_measurement_error + meas_error))"

text \<open>
  The loop over \<open>physical_layouts\<close>; the last argument is the list \<open>scores\<close>, and an entry
  \<open>[layout, score]\<close> is a pair.
\<close>

fun score_layouts_loop ::
  "('q, 'v::{zero,plus}) backend_properties \<Rightarrow> (int \<times> int) list \<Rightarrow> string \<Rightarrow> 'q list \<Rightarrow>
   'q py_seq list \<Rightarrow> 'q list list \<Rightarrow> ('q list \<times> 'v) list \<Rightarrow> py_error + ('q list \<times> 'v) list" where
  "score_layouts_loop props virtual_edges two_q_gate_name bad_readout_qubits bad_czgate_edges
     [] scores = Inr scores"
| "score_layouts_loop props virtual_edges two_q_gate_name bad_readout_qubits bad_czgate_edges
     (layout # physical_layouts) scores =
     (if \<exists>q \<in> set layout. q \<in> set bad_readout_qubits then
        score_layouts_loop props virtual_edges two_q_gate_name bad_readout_qubits
          bad_czgate_edges physical_layouts scores
      else
        (case uses_bad_edge bad_czgate_edges layout virtual_edges of
           Inl e \<Rightarrow> Inl e
         | Inr skip \<Rightarrow>
             if skip then
               score_layouts_loop props virtual_edges two_q_gate_name bad_readout_qubits
                 bad_czgate_edges physical_layouts scores
             else
               (case total_2q_error_loop props two_q_gate_name layout virtual_edges 0 of
                  Inl e \<Rightarrow> Inl e
                | Inr total_2q_error \<Rightarrow>
                    (case total_measurement_error_loop props layout 0 of
                       Inl e \<Rightarrow> Inl e
                     | Inr total_measurement_error \<Rightarrow>
                         score_layouts_loop props virtual_edges two_q_gate_name
                           bad_readout_qubits bad_czgate_edges physical_layouts
                           (scores @ [(layout, total_2q_error + total_measurement_error)])))))"

text \<open>
  Python's \<open>sorted\<close> with a key is a stable sort by that key, as \<open>sort_key\<close> is.
\<close>

definition lightweight_layout_error_scoring ::
  "('q, 'v::{linorder,zero,plus}) backend \<Rightarrow> (int \<times> int) list \<Rightarrow> 'q list list \<Rightarrow> string \<Rightarrow>
   'q list \<Rightarrow> 'q py_seq list \<Rightarrow> py_error + ('q list \<times> 'v) list" where
  "lightweight_layout_error_scoring backend virtual_edges physical_layouts two_q_gate_name
     bad_readout_qubits bad_czgate_edges =
     (case properties backend of
        Inl e \<Rightarrow> Inl e
      | Inr props \<Rightarrow>
          (case score_layouts_loop props virtual_edges two_q_gate_name bad_readout_qubits
                  bad_czgate_edges physical_layouts [] of
             Inl e \<Rightarrow> Inl e
           | Inr scores \<Rightarrow> Inr (sort_key snd scores)))"

subsection \<open>get_zigzag_physical_layout\<close>

text \<open>
  The external calls of \<open>get_zigzag_physical_layout\<close> are parameters:
  \<^item> \<open>is_subgraph_isomorphic\<close>, as above;
  \<^item> \<open>vf2_mapping first second\<close>, the list that \<open>list(rustworkx.vf2_mapping(first, second,
    subgraph=True))\<close> builds: each mapping is given by its \<open>items()\<close>, pairs of a node index of
    the first graph (the key) and a node index of the second (the value);
  \<^item> \<open>set_pop\<close>, the element that \<open>pop()\<close> removes from a non-empty set of strings (Python
    does not say which one).
\<close>

record library =
  is_subgraph_isomorphic :: subgraph_oracle
  vf2_mapping :: "pygraph \<Rightarrow> pygraph \<Rightarrow> (nat \<times> nat) list list"
  set_pop :: "string list \<Rightarrow> string"

definition IBM_TWO_Q_GATES :: "string list" where
  "IBM_TWO_Q_GATES = [''cx'', ''ecr'', ''cz'']"

text \<open>
  An entry of a layout is \<open>None\<close> or a physical qubit. The inner loop stores the keys of
  one mapping at the positions given by its values; the outer loop collects one layout
  per mapping.
\<close>

fun fill_layout :: "nat option list \<Rightarrow> (nat \<times> nat) list \<Rightarrow> py_error + nat option list" where
  "fill_layout initial_layout [] = Inr initial_layout"
| "fill_layout initial_layout ((key, val) # items) =
     (if val < length initial_layout
      then fill_layout (initial_layout[val := Some key]) items
      else Inl IndexError)"

fun layouts_loop ::
  "int \<Rightarrow> (nat \<times> nat) list list \<Rightarrow> nat option list list \<Rightarrow> py_error + nat option list list" where
  "layouts_loop layout_len [] layouts = Inr layouts"
| "layouts_loop layout_len (mapping # isomorphic_mappings) layouts =
     (case fill_layout (replicate (nat layout_len) None) mapping of
        Inl e \<Rightarrow> Inl e
      | Inr initial_layout \<Rightarrow>
          layouts_loop layout_len isomorphic_mappings (layouts @ [initial_layout]))"

text \<open>
  Everything after the call of \<open>create_lucj_zigzag_layout\<close>, for the graph \<open>G\<close> and the
  count \<open>num_alpha_beta_qubits\<close> that it returned.
\<close>

definition zigzag_layout_of ::
  "library \<Rightarrow> int \<Rightarrow> (nat option, 'v::{linorder,zero,plus}) backend \<Rightarrow> bool \<Rightarrow> int \<Rightarrow>
   nat option list \<Rightarrow> nat option py_seq list \<Rightarrow> pygraph \<Rightarrow> pygraph \<Rightarrow> int \<Rightarrow>
   py_error + nat option list \<times> int" where
  "zigzag_layout_of lib num_orbitals backend score_layouts num_ancillas bad_readout_qubits
     bad_czgate_edges backend_coupling_graph G num_alpha_beta_qubits =
     (let isomorphic_mappings = vf2_mapping lib backend_coupling_graph G;
          edges = map (\<lambda>(a, b). (int a, int b)) (pg_edges G)
      in case layouts_loop (2 * (num_orbitals + num_ancillas) + num_alpha_beta_qubits)
                isomorphic_mappings [] of
           Inl e \<Rightarrow> Inl e
         | Inr layouts \<Rightarrow>
             (case filter (\<lambda>g. g \<in> set (basis_gates backend)) IBM_TWO_Q_GATES of
                [] \<Rightarrow> Inl KeyError
              | g # gs \<Rightarrow>
                  (let two_q_gate_name = set_pop lib (g # gs) in
                   if score_layouts then
                     (case lightweight_layout_error_scoring backend edges layouts
                             two_q_gate_name bad_readout_qubits bad_czgate_edges of
                        Inl e \<Rightarrow> Inl e
                      | Inr scores \<Rightarrow>
                          (case py_index scores 0 of
                             Inl e \<Rightarrow> Inl e
                           | Inr best \<Rightarrow>
                               Inr (py_slice_upto (fst best) (- num_alpha_beta_qubits),
                                    num_alpha_beta_qubits)))
                   else
                     (case py_index layouts 0 of
                        Inl e \<Rightarrow> Inl e
                      | Inr first \<Rightarrow>
                          Inr (py_slice_upto first (- num_alpha_beta_qubits),
                               num_alpha_beta_qubits)))))"

definition get_zigzag_physical_layout ::
  "library \<Rightarrow> int \<Rightarrow> (nat option, 'v::{linorder,zero,plus}) backend \<Rightarrow> bool \<Rightarrow> int \<Rightarrow>
   nat option list \<Rightarrow> nat option py_seq list \<Rightarrow> (py_error + nat option list \<times> int) option" where
  "get_zigzag_physical_layout lib num_orbitals backend score_layouts num_ancillas
     bad_readout_qubits bad_czgate_edges =
     (case cmap_pygraph backend of
        Inl e \<Rightarrow> Some (Inl e)
      | Inr backend_coupling_graph \<Rightarrow>
          (case create_lucj_zigzag_layout (is_subgraph_isomorphic lib)
                  (num_orbitals + num_ancillas) backend_coupling_graph of
             None \<Rightarrow> None
           | Some (Inl e) \<Rightarrow> Some (Inl e)
           | Some (Inr (G, num_alpha_beta_qubits)) \<Rightarrow>
               Some (zigzag_layout_of lib num_orbitals backend score_layouts num_ancillas
                       bad_readout_qubits bad_czgate_edges backend_coupling_graph G
                       num_alpha_beta_qubits)))"

section \<open>The same two functions over an object store\<close>

text \<open>
  To speak about mutation, the arguments of \<open>zne_method\<close> and of
  \<open>lightweight_layout_error_scoring\<close> are now objects in a store. An address is a position
  in the store, and a new object is put at the end. A cell holds one mutable list: a list
  of floats (\<open>xdata\<close>, \<open>ydata\<close>, the array \<open>popt\<close>), a list of qubits (a layout,
  \<open>bad_readout_qubits\<close>), a list of index pairs (\<open>virtual_edges\<close>), a list of couplings
  (\<open>bad_czgate_edges\<close>), a list of references (\<open>physical_layouts\<close>, \<open>scores\<close>, the sorted
  result) or a two-element list \<open>[layout, score]\<close> holding a reference and a float.
  Tuples, numbers and strings are immutable and stay values, and so do the entries of
  \<open>bad_czgate_edges\<close>, which the code only compares. A default argument such as
  \<open>xdata=[]\<close> is one list object made when the function is defined, so it is an address
  like any other. Reading an address that does not hold the expected kind of list raises
  \<open>TypeError\<close>.

  The external calls (\<open>curve_fit\<close>, \<open>gate_error\<close>, \<open>readout_error\<close>) remain functions of
  the values passed to them: they are taken not to write to the store.
\<close>

type_synonym addr = nat

datatype 'q cell =
    Floats "real list"
  | Qubits "'q list"
  | Edges "(int \<times> int) list"
  | Pairs "'q py_seq list"
  | Refs "addr list"
  | Entry addr real

type_synonym 'q store = "'q cell list"

definition alloc :: "'q store \<Rightarrow> 'q cell \<Rightarrow> 'q store \<times> addr" where
  "alloc h c = (h @ [c], length h)"

definition get_cell :: "'q store \<Rightarrow> addr \<Rightarrow> py_error + 'q cell" where
  "get_cell h a = (if a < length h then Inr (h ! a) else Inl TypeError)"

definition get_floats :: "'q store \<Rightarrow> addr \<Rightarrow> py_error + real list" where
  "get_floats h a = (case get_cell h a of Inr (Floats xs) \<Rightarrow> Inr xs | _ \<Rightarrow> Inl TypeError)"

definition get_qubits :: "'q store \<Rightarrow> addr \<Rightarrow> py_error + 'q list" where
  "get_qubits h a = (case get_cell h a of Inr (Qubits qs) \<Rightarrow> Inr qs | _ \<Rightarrow> Inl TypeError)"

definition get_edges :: "'q store \<Rightarrow> addr \<Rightarrow> py_error + (int \<times> int) list" where
  "get_edges h a = (case get_cell h a of Inr (Edges es) \<Rightarrow> Inr es | _ \<Rightarrow> Inl TypeError)"

definition get_pairs :: "'q store \<Rightarrow> addr \<Rightarrow> py_error + 'q py_seq list" where
  "get_pairs h a = (case get_cell h a of Inr (Pairs ps) \<Rightarrow> Inr ps | _ \<Rightarrow> Inl TypeError)"

definition get_refs :: "'q store \<Rightarrow> addr \<Rightarrow> py_error + addr list" where
  "get_refs h a = (case get_cell h a of Inr (Refs rs) \<Rightarrow> Inr rs | _ \<Rightarrow> Inl TypeError)"

definition get_entry :: "'q store \<Rightarrow> addr \<Rightarrow> py_error + addr \<times> real" where
  "get_entry h a = (case get_cell h a of Inr (Entry la s) \<Rightarrow> Inr (la, s) | _ \<Rightarrow> Inl TypeError)"

text \<open>\<open>scores.append(entry)\<close>: the one write to an existing object.\<close>

definition list_append :: "'q store \<Rightarrow> addr \<Rightarrow> addr \<Rightarrow> py_error + 'q store" where
  "list_append h xs x =
     (case get_refs h xs of
        Inl e \<Rightarrow> Inl e
      | Inr rs \<Rightarrow> Inr (h[xs := Refs (rs @ [x])]))"

subsection \<open>zne_method over the store\<close>

text \<open>
  The arguments \<open>xdata\<close> and \<open>ydata\<close> are addresses. The fitted parameters are a new array;
  the returned tuple holds the address of \<open>ydata\<close> itself.
\<close>

definition fit_and_extrapolate_st ::
  "curve_fit \<Rightarrow> fit_fn \<Rightarrow> real list option \<Rightarrow> nat option \<Rightarrow> addr \<Rightarrow> addr \<Rightarrow> 'q store \<Rightarrow>
   'q store \<times> (py_error + real \<times> addr \<times> addr \<times> fit_fn)" where
  "fit_and_extrapolate_st cf f p0 maxfev xdata ydata h =
     (case get_floats h xdata of
        Inl e \<Rightarrow> (h, Inl e)
      | Inr xs \<Rightarrow>
          (case get_floats h ydata of
             Inl e \<Rightarrow> (h, Inl e)
           | Inr ys \<Rightarrow>
               (case cf \<lparr>fit_f = f, fit_xdata = xs, fit_ydata = ys,
                         fit_p0 = p0, fit_maxfev = maxfev\<rparr> of
                  Inl e \<Rightarrow> (h, Inl e)
                | Inr popt \<Rightarrow>
                    (let (h1, popt_a) = alloc h (Floats popt)
                     in case call_fit_fn f 0 popt of
                          Inl e \<Rightarrow> (h1, Inl e)
                        | Inr zero_val \<Rightarrow> (h1, Inr (zero_val, ydata, popt_a, f))))))"

definition zne_method_st ::
  "curve_fit \<Rightarrow> string \<Rightarrow> addr \<Rightarrow> addr \<Rightarrow> 'q store \<Rightarrow>
   'q store \<times> (py_error + real \<times> addr \<times> addr \<times> fit_fn)" where
  "zne_method_st cf method xdata ydata h =
     (if method = ''linear'' then
        fit_and_extrapolate_st cf LinearModel None None xdata ydata h
      else if method = ''quadratic'' then
        fit_and_extrapolate_st cf QuadraticModel None None xdata ydata h
      else if method = ''exponential'' then
        fit_and_extrapolate_st cf ExponentialModel (Some [1, 1 / 10, 0]) (Some 5000)
          xdata ydata h
      else (h, Inl ValueError))"

text \<open>What a caller sees of a result: the values behind the addresses.\<close>

definition zne_outcome ::
  "'q store \<Rightarrow> py_error + real \<times> addr \<times> addr \<times> fit_fn \<Rightarrow> py_error + zne_result" where
  "zne_outcome h r =
     (case r of
        Inl e \<Rightarrow> Inl e
      | Inr (zero_val, ydata, popt_a, fit_fn) \<Rightarrow>
          (case get_floats h ydata of
             Inl e \<Rightarrow> Inl e
           | Inr ys \<Rightarrow>
               (case get_floats h popt_a of
                  Inl e \<Rightarrow> Inl e
                | Inr popt \<Rightarrow> Inr (zero_val, ys, popt, fit_fn))))"

subsection \<open>lightweight_layout_error_scoring over the store\<close>

text \<open>
  The loop over the layouts. Every argument is read from the store where the code uses
  it; the inner loops only read the lists they were given, so they are the functions
  above. A kept layout makes a new entry \<open>[layout, score]\<close>, which is appended to
  \<open>scores\<close>.
\<close>

fun score_layouts_loop_st ::
  "('q, real) backend_properties \<Rightarrow> addr \<Rightarrow> string \<Rightarrow> addr \<Rightarrow> addr \<Rightarrow> addr list \<Rightarrow> addr \<Rightarrow>
   'q store \<Rightarrow> 'q store \<times> (py_error + unit)" where
  "score_layouts_loop_st props virtual_edges two_q_gate_name bad_readout_qubits
     bad_czgate_edges [] scores h = (h, Inr ())"
| "score_layouts_loop_st props virtual_edges two_q_gate_name bad_readout_qubits
     bad_czgate_edges (layout # physical_layouts) scores h =
     (case get_qubits h layout of
        Inl e \<Rightarrow> (h, Inl e)
      | Inr qs \<Rightarrow>
     (case get_qubits h bad_readout_qubits of
        Inl e \<Rightarrow> (h, Inl e)
      | Inr bad_qs \<Rightarrow>
          if \<exists>q \<in> set qs. q \<in> set bad_qs then
            score_layouts_loop_st props virtual_edges two_q_gate_name bad_readout_qubits
              bad_czgate_edges physical_layouts scores h
          else
     (case get_edges h virtual_edges of
        Inl e \<Rightarrow> (h, Inl e)
      | Inr ves \<Rightarrow>
     (case get_pairs h bad_czgate_edges of
        Inl e \<Rightarrow> (h, Inl e)
      | Inr bad_es \<Rightarrow>
     (case uses_bad_edge bad_es qs ves of
        Inl e \<Rightarrow> (h, Inl e)
      | Inr skip \<Rightarrow>
          if skip then
            score_layouts_loop_st props virtual_edges two_q_gate_name bad_readout_qubits
              bad_czgate_edges physical_layouts scores h
          else
     (case total_2q_error_loop props two_q_gate_name qs ves 0 of
        Inl e \<Rightarrow> (h, Inl e)
      | Inr total_2q_error \<Rightarrow>
     (case total_measurement_error_loop props qs 0 of
        Inl e \<Rightarrow> (h, Inl e)
      | Inr total_measurement_error \<Rightarrow>
          (let (h1, entry) = alloc h (Entry layout (total_2q_error + total_measurement_error))
           in case list_append h1 scores entry of
                Inl e \<Rightarrow> (h1, Inl e)
              | Inr h2 \<Rightarrow>
                  score_layouts_loop_st props virtual_edges two_q_gate_name
                    bad_readout_qubits bad_czgate_edges physical_layouts scores h2))))))))"

text \<open>
  \<open>sorted(scores, key=lambda x: x[1])\<close>: the key of each entry is read, and the entries are
  put in a new list in the order of their keys.
\<close>

fun entry_keys :: "'q store \<Rightarrow> addr list \<Rightarrow> py_error + (addr \<times> real) list" where
  "entry_keys h [] = Inr []"
| "entry_keys h (x # xs) =
     (case get_entry h x of
        Inl e \<Rightarrow> Inl e
      | Inr (_, key) \<Rightarrow>
          (case entry_keys h xs of
             Inl e \<Rightarrow> Inl e
           | Inr keyed \<Rightarrow> Inr ((x, key) # keyed)))"

definition sorted_by_score :: "'q store \<Rightarrow> addr \<Rightarrow> 'q store \<times> (py_error + addr)" where
  "sorted_by_score h scores =
     (case get_refs h scores of
        Inl e \<Rightarrow> (h, Inl e)
      | Inr xs \<Rightarrow>
          (case entry_keys h xs of
             Inl e \<Rightarrow> (h, Inl e)
           | Inr keyed \<Rightarrow>
               (let (h1, result) = alloc h (Refs (map fst (sort_key snd keyed)))
                in (h1, Inr result))))"

definition lightweight_layout_error_scoring_st ::
  "('q, real) backend \<Rightarrow> addr \<Rightarrow> addr \<Rightarrow> string \<Rightarrow> addr \<Rightarrow> addr \<Rightarrow> 'q store \<Rightarrow>
   'q store \<times> (py_error + addr)" where
  "lightweight_layout_error_scoring_st backend virtual_edges physical_layouts two_q_gate_name
     bad_readout_qubits bad_czgate_edges h =
     (case properties backend of
        Inl e \<Rightarrow> (h, Inl e)
      | Inr props \<Rightarrow>
          (let (h1, scores) = alloc h (Refs [])
           in case get_refs h1 physical_layouts of
                Inl e \<Rightarrow> (h1, Inl e)
              | Inr layouts \<Rightarrow>
                  (case score_layouts_loop_st props virtual_edges two_q_gate_name
                          bad_readout_qubits bad_czgate_edges layouts scores h1 of
                     (h2, Inl e) \<Rightarrow> (h2, Inl e)
                   | (h2, Inr _) \<Rightarrow> sorted_by_score h2 scores)))"

text \<open>What a caller sees of the returned list: the layout and score of each entry.\<close>

fun read_entries :: "'q store \<Rightarrow> addr list \<Rightarrow> py_error + ('q list \<times> real) list" where
  "read_entries h [] = Inr []"
| "read_entries h (x # xs) =
     (case get_entry h x of
        Inl e \<Rightarrow> Inl e
      | Inr (layout, score) \<Rightarrow>
          (case get_qubits h layout of
             Inl e \<Rightarrow> Inl e
           | Inr qs \<Rightarrow>
               (case read_entries h xs of
                  Inl e \<Rightarrow> Inl e
                | Inr rest \<Rightarrow> Inr ((qs, score) # rest))))"

definition scoring_outcome ::
  "'q store \<Rightarrow> py_error + addr \<Rightarrow> py_error + ('q list \<times> real) list" where
  "scoring_outcome h r =
     (case r of
        Inl e \<Rightarrow> Inl e
      | Inr result \<Rightarrow>
          (case get_refs h result of
             Inl e \<Rightarrow> Inl e
           | Inr xs \<Rightarrow> read_entries h xs))"

text \<open>
  The store while the loop runs: the store at the call, then the list \<open>scores\<close>, then one
  entry for each layout kept so far (its layout reference and its score).
\<close>

definition loop_store :: "'q store \<Rightarrow> (addr \<times> real) list \<Rightarrow> 'q store" where
  "loop_store h kept =
     h @ Refs [Suc (length h)..<Suc (length h) + length kept]
       # map (\<lambda>(layout, score). Entry layout score) kept"

section \<open>Concrete inputs for the examples\<close>

text \<open>A fit that returns fixed parameters: two for the linear model, three otherwise.\<close>

definition demo_fit :: curve_fit where
  "demo_fit call = (if fit_f call = LinearModel then Inr [2, 3] else Inr [2, 3, 5])"

text \<open>
  A stand-in for the subgraph test that only compares sizes: a graph with more nodes or
  more edges than the backend cannot be embedded in it.
\<close>

definition demo_iso :: subgraph_oracle where
  "demo_iso B G = (length (pg_nodes G) \<le> length (pg_nodes B)
                   \<and> length (pg_edges G) \<le> length (pg_edges B))"

definition demo_coupling_graph :: pygraph where
  "demo_coupling_graph =
     \<lparr>pg_nodes = [0, 1, 2, 3, 4, 5, 6, 7, 8, 9, 10],
      pg_edges = [(0, 1), (1, 2), (2, 3), (3, 4), (5, 6), (6, 7), (7, 8), (8, 9),
                  (0, 10), (10, 5)]\<rparr>"

text \<open>
  The two chains for five orbitals, and two backends: a three-qubit line, too small for any
  chain pair, and a device that is exactly the five-orbital zigzag with one connecting qubit.
\<close>

definition demo_chains :: pygraph where
  "demo_chains =
     \<lparr>pg_nodes = [0, 1, 2, 3, 4, 5, 6, 7, 8, 9],
      pg_edges = [(0, 1), (1, 2), (2, 3), (3, 4), (5, 6), (6, 7), (7, 8), (8, 9)]\<rparr>"

definition demo_line :: pygraph where
  "demo_line = \<lparr>pg_nodes = [0, 1, 2], pg_edges = [(0, 1), (1, 2)]\<rparr>"

text \<open>
  A backend whose two-qubit gate error is only recorded for the pair \<open>(a, b)\<close> with
  \<open>a < b\<close>, so that the other orientation needs the reverse lookup, and six layouts of
  three qubits.
\<close>

definition demo_props :: "(nat, real) backend_properties" where
  "demo_props =
     \<lparr>gate_error = (\<lambda>name pe.
        if name = ''cz'' \<and> fst pe < snd pe then Inr (real (fst pe + snd pe) / 100)
        else Inl (ExternalError ''BackendPropertyError'')),
      readout_error = (\<lambda>q.
        if q < 6 then Inr (real q / 10) else Inl (ExternalError ''BackendPropertyError''))\<rparr>"

definition demo_backend :: "(nat, real) backend" where
  "demo_backend =
     \<lparr>properties = Inr demo_props, basis_gates = [''cz'', ''id'', ''rz'', ''sx'', ''x''],
      cmap_pygraph = Inr demo_coupling_graph\<rparr>"

text \<open>
  The same backend with floats: the gate error of \<open>(a, b)\<close> is \<open>(a + b) / 100\<close> and the
  readout error of \<open>q\<close> is \<open>q / 10\<close>, computed in floats.
\<close>

definition demo_float_props :: "(nat, py_float) backend_properties" where
  "demo_float_props =
     \<lparr>gate_error = (\<lambda>name pe.
        if name = ''cz'' \<and> fst pe < snd pe then Inr (float_div (int (fst pe + snd pe)) 100)
        else Inl (ExternalError ''BackendPropertyError'')),
      readout_error = (\<lambda>q.
        if q < 6 then Inr (float_div (int q) 10)
        else Inl (ExternalError ''BackendPropertyError''))\<rparr>"

definition demo_float_backend :: "(nat, py_float) backend" where
  "demo_float_backend =
     \<lparr>properties = Inr demo_float_props, basis_gates = [''cz'', ''id'', ''rz'', ''sx'', ''x''],
      cmap_pygraph = Inr demo_coupling_graph\<rparr>"

definition demo_layouts :: "nat list list" where
  "demo_layouts = [[3, 4, 5], [1, 2, 3], [4, 3, 2], [2, 1, 0], [3, 4, 2], [0, 1, 2]]"

text \<open>
  A library for the examples: the size comparison as subgraph test, the two embeddings of
  the one-orbital zigzag in a three-qubit line (and of a pair of isolated qubits in
  itself) as mappings, and \<open>pop\<close> taking the first candidate. The backend records gate
  errors as above and has the given coupling graph.
\<close>

definition demo_pair :: pygraph where
  "demo_pair = \<lparr>pg_nodes = [0, 1], pg_edges = []\<rparr>"

definition demo_lib :: library where
  "demo_lib =
     \<lparr>is_subgraph_isomorphic = demo_iso,
      vf2_mapping = (\<lambda>B G.
        if length (pg_nodes G) = 3
        then [[(0, 0), (1, 2), (2, 1)], [(2, 0), (1, 2), (0, 1)]]
        else [[(0, 0), (1, 1)], [(1, 0), (0, 1)]]),
      set_pop = hd\<rparr>"

definition demo_qpu_props :: "(nat option, real) backend_properties" where
  "demo_qpu_props =
     \<lparr>gate_error = (\<lambda>name pe.
        case pe of
          (Some a, Some b) \<Rightarrow>
            if name = ''cz'' \<and> a < b then Inr (real (a + b) / 100)
            else Inl (ExternalError ''BackendPropertyError'')
        | _ \<Rightarrow> Inl (ExternalError ''BackendPropertyError'')),
      readout_error = (\<lambda>q.
        case q of
          Some a \<Rightarrow> Inr (real a / 10)
        | None \<Rightarrow> Inl (ExternalError ''BackendPropertyError''))\<rparr>"

definition demo_qpu :: "pygraph \<Rightarrow> (nat option, real) backend" where
  "demo_qpu coupling =
     \<lparr>properties = Inr demo_qpu_props, basis_gates = [''cz'', ''id'', ''rz'', ''sx'', ''x''],
      cmap_pygraph = Inr coupling\<rparr>"

text \<open>
  Two stores for the examples: the data of a fit, and the arguments of a scoring call
  (virtual edges, bad qubits, bad edges, the six layouts above and the list of them).
\<close>

definition demo_fit_store :: "nat store" where
  "demo_fit_store = [Floats [1, 2], Floats [5, 7]]"

definition demo_scoring_store :: "nat store" where
  "demo_scoring_store =
     [Edges [(0, 1), (1, 2)], Qubits [5], Pairs [PyTuple [4, 3]],
      Qubits [3, 4, 5], Qubits [1, 2, 3], Qubits [4, 3, 2], Qubits [2, 1, 0],
      Qubits [3, 4, 2], Qubits [0, 1, 2], Refs [3, 4, 5, 6, 7, 8]]"

section \<open>Properties of the float rounding\<close>

lemma pow2_power_int: "pow2 e = power_int 2 e"
  by (simp add: pow2_def power_int_def power_one_over)

lemma pow2_pos: "0 < pow2 e"
  by (simp add: pow2_def)

lemma pow2_Suc: "pow2 (e + 1) = 2 * pow2 e"
  by (simp add: pow2_power_int power_int_add)

lemma binary_exponent_bounds:
  assumes "0 < x"
  shows "pow2 (binary_exponent x) \<le> x \<and> x < pow2 (binary_exponent x + 1)"
proof (cases "1 \<le> x")
  case True
  define n where "n = \<lfloor>x\<rfloor>"
  from True have n: "0 < n" by (simp add: n_def)
  from bitlen_bounds [OF n] have lo: "2 ^ nat (bitlen n - 1) \<le> n" and hi: "n < 2 ^ nat (bitlen n)"
    by simp_all
  from n have pos: "1 \<le> bitlen n"
    using bitlen_eq_zero_iff [of n] bitlen_nonneg [of n] by linarith
  have e: "binary_exponent x = bitlen n - 1"
    using True by (simp add: binary_exponent_def n_def)
  have "pow2 (bitlen n - 1) = 2 ^ nat (bitlen n - 1)"
    using pos by (simp add: pow2_def)
  also have "\<dots> \<le> of_int n"
    using lo by (metis of_int_le_iff of_int_numeral of_int_power)
  also have "\<dots> \<le> x" by (simp add: n_def)
  finally have low: "pow2 (bitlen n - 1) \<le> x" .
  have "x < of_int (n + 1)" unfolding n_def by linarith
  also have "\<dots> \<le> of_int (2 ^ nat (bitlen n))"
    using hi by (metis of_int_le_iff zless_imp_add1_zle)
  also have "\<dots> = pow2 (bitlen n - 1 + 1)"
    using pos by (simp add: pow2_def)
  finally show ?thesis using low e by simp
next
  case False
  define m where "m = \<lfloor>1 / x\<rfloor>"
  define k where "k = bitlen m - 1"
  from False assms have "1 < 1 / x" by simp
  then have m: "0 < m" unfolding m_def by linarith
  from bitlen_bounds [OF m] have lo: "2 ^ nat (bitlen m - 1) \<le> m" and hi: "m < 2 ^ nat (bitlen m)"
    by simp_all
  from m have pos: "1 \<le> bitlen m"
    using bitlen_eq_zero_iff [of m] bitlen_nonneg [of m] by linarith
  then have k: "0 \<le> k" by (simp add: k_def)
  have "(2 :: real) ^ nat k \<le> of_int m"
    using lo unfolding k_def by (metis of_int_le_iff of_int_numeral of_int_power)
  also have "\<dots> \<le> 1 / x" by (simp add: m_def)
  finally have a: "2 ^ nat k \<le> 1 / x" .
  have "1 / x < of_int (m + 1)" unfolding m_def by linarith
  also have "\<dots> \<le> of_int (2 ^ nat (bitlen m))"
    using hi by (metis of_int_le_iff zless_imp_add1_zle)
  also have "\<dots> = 2 * 2 ^ nat k"
    using pos by (simp add: k_def flip: power_Suc nat_diff_distrib Suc_nat_eq_nat_zadd1) 
  finally have b: "1 / x < 2 * 2 ^ nat k" .
  from a assms have up: "x \<le> 1 / 2 ^ nat k"
    by (simp add: field_simps)
  from b assms have down: "1 / (2 * 2 ^ nat k) < x"
    by (simp add: field_simps)
  have pk: "pow2 (- k) = 1 / 2 ^ nat k"
    using k by (cases "k = 0") (simp_all add: pow2_def)
  have pk1: "pow2 (- k - 1) = 1 / (2 * 2 ^ nat k)"
    using k by (simp add: pow2_def nat_add_distrib)
  have e: "binary_exponent x = (if pow2 (- k) \<le> x then - k else - k - 1)"
    using False by (simp add: binary_exponent_def m_def k_def Let_def)
  show ?thesis
  proof (cases "pow2 (- k) \<le> x")
    case True
    have "x < 2 * pow2 (- k)" using up pk pow2_pos [of "- k"] by linarith
    moreover have "pow2 (- k + 1) = 2 * pow2 (- k)" by (rule pow2_Suc)
    ultimately show ?thesis using True e by simp
  next
    case False
    have "pow2 (- k - 1 + 1) = pow2 (- k)" by simp
    with False e down pk1 show ?thesis by simp
  qed
qed


lemma pow2_add: "pow2 (a + b) = pow2 a * pow2 b"
  by (simp add: pow2_power_int power_int_add)

lemma pow2_mono: "a \<le> b \<Longrightarrow> pow2 a \<le> pow2 b"
  by (simp add: pow2_power_int power_int_increasing)

lemma round_half_even_near:
  "\<bar>of_int (round_half_even y) - y\<bar> \<le> 1 / 2
   \<and> (\<bar>of_int (round_half_even y) - y\<bar> = 1 / 2 \<longrightarrow> even (round_half_even y))"
proof -
  define f where "f = \<lfloor>y\<rfloor>"
  define r where "r = y - of_int f"
  have r: "0 \<le> r" "r < 1" unfolding r_def f_def by linarith+
  have res: "round_half_even y
      = (if r < 1 / 2 then f else if 1 / 2 < r then f + 1 else if even f then f else f + 1)"
    by (simp add: round_half_even_def Let_def f_def r_def)
  have diff: "of_int (round_half_even y) - y
      = (if r < 1 / 2 then - r else if 1 / 2 < r then 1 - r else if even f then - r else 1 - r)"
    by (simp add: res r_def)
  show ?thesis
    unfolding diff using r by (auto simp: res)
qed

lemma round_half_even_between:
  "(of_int n \<le> y \<longrightarrow> n \<le> round_half_even y) \<and> (y \<le> of_int n \<longrightarrow> round_half_even y \<le> n)"
proof -
  define f where "f = \<lfloor>y\<rfloor>"
  define r where "r = y - of_int f"
  have res: "round_half_even y
      = (if r < 1 / 2 then f else if 1 / 2 < r then f + 1 else if even f then f else f + 1)"
    by (simp add: round_half_even_def Let_def f_def r_def)
  have lower: "n \<le> f" if "of_int n \<le> y"
    using that unfolding f_def by (simp add: le_floor_iff)
  have upper: "f + 1 \<le> n" if "y \<le> of_int n" "r \<noteq> 0"
  proof -
    from that(2) have "of_int f < y" unfolding r_def f_def by linarith
    with that(1) have "(of_int f :: real) < of_int n" by linarith
    then show ?thesis by simp
  qed
  have upper0: "f \<le> n" if "y \<le> of_int n"
  proof -
    have "of_int f \<le> y" unfolding f_def by simp
    with that have "(of_int f :: real) \<le> of_int n" by linarith
    then show ?thesis by simp
  qed
  show ?thesis
    unfolding res using lower upper upper0 by (auto split: if_splits)
qed

text \<open>
  Rounding gives the float nearest to \<open>x\<close>: a multiple \<open>m * ulp\<close> of the spacing of the
  floats around \<open>x\<close> with \<open>\<bar>m\<bar> \<le> 2 ^ 53\<close>, at most half a spacing away from \<open>x\<close>, and with
  \<open>m\<close> even when \<open>x\<close> is halfway between two floats.
\<close>

lemma round_binary64_nearest:
  assumes "x \<noteq> 0"
  shows "\<exists>m. round_binary64 x = of_int m * pow2 (max (binary_exponent \<bar>x\<bar>) (- 1022) - 52)
     \<and> \<bar>m\<bar> \<le> 2 ^ 53
     \<and> \<bar>round_binary64 x - x\<bar> \<le> pow2 (max (binary_exponent \<bar>x\<bar>) (- 1022) - 52) / 2
     \<and> (\<bar>round_binary64 x - x\<bar> = pow2 (max (binary_exponent \<bar>x\<bar>) (- 1022) - 52) / 2
          \<longrightarrow> even m)"
proof -
  define e where "e = max (binary_exponent \<bar>x\<bar>) (- 1022)"
  define ulp where "ulp = pow2 (e - 52)"
  define m where "m = round_half_even (x / ulp)"
  have ulp: "0 < ulp" by (simp add: ulp_def pow2_pos)
  have res: "round_binary64 x = of_int m * ulp"
    using assms by (simp add: round_binary64_def Let_def m_def ulp_def e_def)
  from assms binary_exponent_bounds [of "\<bar>x\<bar>"] have "\<bar>x\<bar> < pow2 (binary_exponent \<bar>x\<bar> + 1)"
    by simp
  also have "\<dots> \<le> pow2 (e + 1)"
    by (rule pow2_mono) (simp add: e_def)
  also have "\<dots> = pow2 (53 + (e - 52))"
    by (simp add: algebra_simps)
  also have "\<dots> = pow2 53 * ulp"
    unfolding ulp_def by (rule pow2_add)
  finally have "\<bar>x\<bar> / ulp < pow2 53"
    using ulp by (simp add: field_simps)
  then have "\<bar>x / ulp\<bar> < 2 ^ 53"
    using ulp by (simp add: pow2_def)
  then have "- (2 ^ 53) < x / ulp \<and> x / ulp < 2 ^ 53"
    unfolding abs_less_iff by linarith
  then have "of_int (- (2 ^ 53)) \<le> x / ulp" "x / ulp \<le> of_int (2 ^ 53)"
    by simp_all
  with round_half_even_between [of "- (2 ^ 53)" "x / ulp"] round_half_even_between [of "2 ^ 53" "x / ulp"]
  have bound: "\<bar>m\<bar> \<le> 2 ^ 53"
    unfolding m_def by linarith
  have diff: "round_binary64 x - x = (of_int m - x / ulp) * ulp"
    using ulp by (simp add: res field_simps)
  have abs_diff: "\<bar>round_binary64 x - x\<bar> = \<bar>of_int m - x / ulp\<bar> * ulp"
    using ulp by (simp add: diff abs_mult)
  from round_half_even_near [of "x / ulp"] have
    near: "\<bar>of_int m - x / ulp\<bar> \<le> 1 / 2" and
    tie: "\<bar>of_int m - x / ulp\<bar> = 1 / 2 \<longrightarrow> even m"
    by (simp_all add: m_def)
  from near ulp have close: "\<bar>round_binary64 x - x\<bar> \<le> ulp / 2"
    unfolding abs_diff by (simp add: field_simps)
  have even: "even m" if "\<bar>round_binary64 x - x\<bar> = ulp / 2"
  proof -
    from that ulp have "\<bar>of_int m - x / ulp\<bar> = 1 / 2"
      unfolding abs_diff by (simp add: field_simps)
    with tie show ?thesis by simp
  qed
  from res bound close even show ?thesis
    unfolding ulp_def e_def by blast
qed

section \<open>Properties of zne_method\<close>

lemma fit_and_extrapolate_Inr:
  assumes "fit_and_extrapolate cf call ydata = (calls, Inr (zero_val, yd, popt, fn))"
  shows "calls = [call] \<and> cf call = Inr popt \<and> fn = fit_f call \<and> yd = ydata
         \<and> call_fit_fn fn 0 popt = Inr zero_val"
  using assms by (auto simp: fit_and_extrapolate_def split: sum.splits)

text \<open>
  C4. For each of the three methods, when the curve fit accepts the data and returns one
  parameter per model parameter, \<open>zne_method\<close> returns the selected model evaluated at noise
  scale 0 with the fitted parameters, the data \<open>ydata\<close>, the fitted parameters and the
  selected model function. Conversely, whenever \<open>zne_method\<close> returns, its first component
  is the returned fit function called at 0 with the returned parameters, the parameters are
  those of the single fit performed on \<open>xdata\<close> and \<open>ydata\<close>, and the fit function is the
  model of the method.
\<close>

theorem zne_method_zero_noise:
  "(cf \<lparr>fit_f = LinearModel, fit_xdata = xdata, fit_ydata = ydata,
        fit_p0 = None, fit_maxfev = None\<rparr> = Inr [a, b] \<longrightarrow>
      snd (zne_method cf ''linear'' xdata ydata)
        = Inr (linear_model 0 a b, ydata, [a, b], LinearModel))
   \<and> (cf \<lparr>fit_f = QuadraticModel, fit_xdata = xdata, fit_ydata = ydata,
        fit_p0 = None, fit_maxfev = None\<rparr> = Inr [a, b, c] \<longrightarrow>
      snd (zne_method cf ''quadratic'' xdata ydata)
        = Inr (quadratic_model 0 a b c, ydata, [a, b, c], QuadraticModel))
   \<and> (cf \<lparr>fit_f = ExponentialModel, fit_xdata = xdata, fit_ydata = ydata,
        fit_p0 = Some [1, 1 / 10, 0], fit_maxfev = Some 5000\<rparr> = Inr [a, b, c] \<longrightarrow>
      snd (zne_method cf ''exponential'' xdata ydata)
        = Inr (exponential_model 0 a b c, ydata, [a, b, c], ExponentialModel))
   \<and> (zne_method cf method xdata ydata = (calls, Inr (zero_val, yd, popt, fn)) \<longrightarrow>
        call_fit_fn fn 0 popt = Inr zero_val
        \<and> yd = ydata
        \<and> fn = (if method = ''linear'' then LinearModel
                else if method = ''quadratic'' then QuadraticModel else ExponentialModel)
        \<and> (\<exists>call. calls = [call] \<and> cf call = Inr popt \<and> fit_f call = fn
                   \<and> fit_xdata call = xdata \<and> fit_ydata call = ydata))"
proof (intro conjI impI)
  assume "zne_method cf method xdata ydata = (calls, Inr (zero_val, yd, popt, fn))"
  then show "call_fit_fn fn 0 popt = Inr zero_val"
    by (auto simp: zne_method_def split: if_splits dest!: fit_and_extrapolate_Inr)
next
  assume "zne_method cf method xdata ydata = (calls, Inr (zero_val, yd, popt, fn))"
  then show "yd = ydata"
    by (auto simp: zne_method_def split: if_splits dest!: fit_and_extrapolate_Inr)
next
  assume "zne_method cf method xdata ydata = (calls, Inr (zero_val, yd, popt, fn))"
  then show "fn = (if method = ''linear'' then LinearModel
                else if method = ''quadratic'' then QuadraticModel else ExponentialModel)"
    by (auto simp: zne_method_def split: if_splits dest!: fit_and_extrapolate_Inr)
next
  assume "zne_method cf method xdata ydata = (calls, Inr (zero_val, yd, popt, fn))"
  then show "\<exists>call. calls = [call] \<and> cf call = Inr popt \<and> fit_f call = fn
                   \<and> fit_xdata call = xdata \<and> fit_ydata call = ydata"
    by (auto simp: zne_method_def split: if_splits dest!: fit_and_extrapolate_Inr)
qed (simp_all add: zne_method_def fit_and_extrapolate_def)

theorem zne_method_zero_noise_witness:
  "snd (zne_method demo_fit ''linear'' [1, 2] [5, 7]) = Inr (3, [5, 7], [2, 3], LinearModel)
   \<and> snd (zne_method demo_fit ''quadratic'' [1, 2] [5, 7])
       = Inr (5, [5, 7], [2, 3, 5], QuadraticModel)
   \<and> snd (zne_method demo_fit ''exponential'' [1, 2] [5, 7])
       = Inr (7, [5, 7], [2, 3, 5], ExponentialModel)
   \<and> call_fit_fn ExponentialModel 0 [2, 3, 5] = Inr 7"
  using zne_method_zero_noise [of demo_fit "[1, 2]" "[5, 7]" 2 3 5 "''exponential''"
      "[\<lparr>fit_f = ExponentialModel, fit_xdata = [1, 2], fit_ydata = [5, 7],
         fit_p0 = Some [1, 1 / 10, 0], fit_maxfev = Some 5000\<rparr>]" 7 "[5, 7]" "[2, 3, 5]"
      ExponentialModel]
  by (simp add: demo_fit_def linear_model_def quadratic_model_def exponential_model_def
      zne_method_def fit_and_extrapolate_def)

text \<open>
  C5. \<open>zne_method\<close> returns normally only for the methods \<open>linear\<close>, \<open>quadratic\<close> and
  \<open>exponential\<close>; for every other method string it raises \<open>ValueError\<close> and has called
  the curve fit not once.
\<close>

theorem zne_method_three_methods:
  "(zne_method cf method xdata ydata = (calls, Inr r) \<longrightarrow>
      method = ''linear'' \<or> method = ''quadratic'' \<or> method = ''exponential'')
   \<and> (method \<noteq> ''linear'' \<and> method \<noteq> ''quadratic'' \<and> method \<noteq> ''exponential'' \<longrightarrow>
        zne_method cf method xdata ydata = ([], Inl ValueError))"
  by (simp add: zne_method_def)

theorem zne_method_three_methods_witness:
  "zne_method demo_fit ''cubic'' [1, 2] [5, 7] = ([], Inl ValueError)
   \<and> zne_method demo_fit ''linear'' [1, 2] [5, 7]
       = ([\<lparr>fit_f = LinearModel, fit_xdata = [1, 2], fit_ydata = [5, 7],
             fit_p0 = None, fit_maxfev = None\<rparr>], Inr (3, [5, 7], [2, 3], LinearModel))"
  using zne_method_three_methods [of demo_fit "''cubic''" "[1, 2]" "[5, 7]"]
    zne_method_three_methods [of demo_fit "''linear''" "[1, 2]" "[5, 7]"]
  by (simp add: demo_fit_def linear_model_def zne_method_def fit_and_extrapolate_def)

section \<open>Properties of create_linear_chains\<close>

lemma upto_map_int: "[int a..int b - 1] = map int [a..<b]"
proof (induction b)
  case 0
  then show ?case by simp
next
  case (Suc b)
  show ?case
  proof (cases "a \<le> b")
    case True
    then have "[int a..int (Suc b) - 1] = [int a..int b - 1] @ [int b]"
      by (simp add: upto_rec2)
    with Suc True show ?thesis by simp
  next
    case False
    then show ?thesis by simp
  qed
qed

lemma py_range_nat: "0 \<le> a \<Longrightarrow> py_range a b = map int [nat a..<nat b]"
proof (cases "0 \<le> b")
  case True
  assume "0 \<le> a"
  with True show ?thesis
    using upto_map_int [of "nat a" "nat b"] by (simp add: py_range_def)
next
  case False
  assume "0 \<le> a"
  with False show ?thesis by (simp add: py_range_def)
qed

lemma add_nodes_append: "add_nodes G ns = G\<lparr>pg_nodes := pg_nodes G @ ns\<rparr>"
  by (induction ns arbitrary: G) (simp_all add: add_node_def)

lemma add_chain_edges_upt:
  "a \<ge> b \<or> b < length (pg_nodes G) \<Longrightarrow>
   add_chain_edges G (map int [a..<b])
     = Inr (G\<lparr>pg_edges := pg_edges G @ map (\<lambda>i. (i, Suc i)) [a..<b]\<rparr>)"
proof (induction "b - a" arbitrary: a G)
  case 0
  then show ?case by simp
next
  case (Suc d)
  then have ab: "a < b" and len: "b < length (pg_nodes G)" by auto
  have step: "add_edge G (int a) (int a + 1)
      = Inr (G\<lparr>pg_edges := pg_edges G @ [(a, Suc a)]\<rparr>)"
    using ab len by (simp add: add_edge_def nat_add_distrib)
  have "d = b - Suc a" using Suc.hyps(2) by simp
  then have "add_chain_edges (G\<lparr>pg_edges := pg_edges G @ [(a, Suc a)]\<rparr>) (map int [Suc a..<b])
      = Inr (G\<lparr>pg_edges := pg_edges G @ [(a, Suc a)] @ map (\<lambda>i. (i, Suc i)) [Suc a..<b]\<rparr>)"
    using Suc.hyps(1) [of "Suc a" "G\<lparr>pg_edges := pg_edges G @ [(a, Suc a)]\<rparr>"] len
    by simp
  with step ab show ?case by (simp add: upt_conv_Cons)
qed

lemma create_linear_chains_nat:
  "create_linear_chains (int m)
     = Inr \<lparr>pg_nodes = map int [0..<2 * m],
            pg_edges = map (\<lambda>i. (i, Suc i)) [0..<m - 1]
                       @ map (\<lambda>i. (i, Suc i)) [m..<2 * m - 1]\<rparr>"
proof -
  let ?G1 = "\<lparr>pg_nodes = map int [0..<m], pg_edges = []\<rparr>"
  let ?G2 = "\<lparr>pg_nodes = map int [0..<m], pg_edges = map (\<lambda>i. (i, Suc i)) [0..<m - 1]\<rparr>"
  let ?G3 = "\<lparr>pg_nodes = map int [0..<2 * m], pg_edges = map (\<lambda>i. (i, Suc i)) [0..<m - 1]\<rparr>"
  have r1: "py_range 0 (int m) = map int [0..<m]"
    by (simp add: py_range_nat)
  have r2: "py_range 0 (int m - 1) = map int [0..<m - 1]"
    by (simp add: py_range_nat nat_diff_distrib')
  have r3: "py_range (int m) (2 * int m) = map int [m..<2 * m]"
    by (simp add: py_range_nat nat_mult_distrib)
  have r4: "py_range (int m) (2 * int m - 1) = map int [m..<2 * m - 1]"
    by (simp add: py_range_nat nat_diff_distrib' nat_mult_distrib)
  have s1: "add_nodes PyGraph (map int [0..<m]) = ?G1"
    by (simp add: add_nodes_append PyGraph_def)
  have s2: "add_chain_edges ?G1 (map int [0..<m - 1]) = Inr ?G2"
    by (subst add_chain_edges_upt) auto
  have split: "[0..<2 * m] = [0..<m] @ [m..<2 * m]"
    using upt_add_eq_append [of 0 m m] by (simp add: mult_2)
  have s3: "add_nodes ?G2 (map int [m..<2 * m]) = ?G3"
    by (simp add: add_nodes_append split)
  have s4: "add_chain_edges ?G3 (map int [m..<2 * m - 1])
      = Inr (?G3\<lparr>pg_edges := pg_edges ?G3 @ map (\<lambda>i. (i, Suc i)) [m..<2 * m - 1]\<rparr>)"
    by (rule add_chain_edges_upt) auto
  show ?thesis
    unfolding create_linear_chains_def Let_def r1 r2 r3 r4 s1 s2 sum.case s3 s4
    by simp
qed

lemma create_linear_chains_nonpos:
  assumes "num_orbitals \<le> 0"
  shows "create_linear_chains num_orbitals = Inr PyGraph"
  using assms by (simp add: create_linear_chains_def py_range_def)

text \<open>
  C6. For every \<open>num_orbitals \<ge> 1\<close>, \<open>create_linear_chains\<close> returns a graph with
  \<open>2 * num_orbitals\<close> nodes and \<open>2 * (num_orbitals - 1)\<close> pairwise different edges; every
  two consecutive nodes of \<open>0 .. num_orbitals - 1\<close> are joined, and so are every two
  consecutive nodes of \<open>num_orbitals .. 2 * num_orbitals - 1\<close>; every edge joins a node to
  its successor inside one of the two chains, so no edge joins the two chains.
\<close>

theorem create_linear_chains_two_chains:
  assumes "1 \<le> num_orbitals"
  shows "\<exists>G. create_linear_chains num_orbitals = Inr G
     \<and> length (pg_nodes G) = nat (2 * num_orbitals)
     \<and> length (pg_edges G) = nat (2 * (num_orbitals - 1))
     \<and> distinct (pg_edges G)
     \<and> (\<forall>i. Suc i < nat num_orbitals \<longrightarrow> (i, Suc i) \<in> set (pg_edges G))
     \<and> (\<forall>i. nat num_orbitals \<le> i \<and> Suc i < 2 * nat num_orbitals \<longrightarrow>
            (i, Suc i) \<in> set (pg_edges G))
     \<and> (\<forall>(a, b) \<in> set (pg_edges G).
            b = Suc a \<and> (b < nat num_orbitals \<or> nat num_orbitals \<le> a \<and> b < 2 * nat num_orbitals))"
proof -
  define m where "m = nat num_orbitals"
  define E where "E = map (\<lambda>i. (i, Suc i)) [0..<m - 1] @ map (\<lambda>i. (i, Suc i)) [m..<2 * m - 1]"
  define G where "G = \<lparr>pg_nodes = map int [0..<2 * m], pg_edges = E\<rparr>"
  have m: "num_orbitals = int m" "1 \<le> m"
    using assms by (simp_all add: m_def)
  have res: "create_linear_chains num_orbitals = Inr G"
    unfolding m(1) G_def E_def by (rule create_linear_chains_nat)
  have nodes: "length (pg_nodes G) = nat (2 * num_orbitals)"
    by (simp add: G_def m(1))
  have edges: "length (pg_edges G) = nat (2 * (num_orbitals - 1))"
    using m(2) by (simp add: G_def E_def m(1) nat_diff_distrib' nat_mult_distrib)
  have inj: "inj_on (\<lambda>i. (i, Suc i)) A" for A :: "nat set"
    by (simp add: inj_on_def)
  have dist: "distinct (pg_edges G)"
    using m(2) by (auto simp: G_def E_def distinct_map inj)
  have set_E: "set E = {(i, Suc i) | i. Suc i < m \<or> m \<le> i \<and> Suc i < 2 * m}"
    using m(2) by (auto simp: E_def)
  show ?thesis
    using res nodes edges dist
    by (intro exI [of _ G]) (auto simp: G_def set_E m_def [symmetric])
qed

theorem create_linear_chains_two_chains_witness:
  "(1::int) \<le> 3
   \<and> create_linear_chains 3
       = Inr \<lparr>pg_nodes = [0, 1, 2, 3, 4, 5], pg_edges = [(0, 1), (1, 2), (3, 4), (4, 5)]\<rparr>
   \<and> (\<exists>G. create_linear_chains 3 = Inr G \<and> length (pg_nodes G) = 6
          \<and> length (pg_edges G) = 4 \<and> (1, 2) \<in> set (pg_edges G)
          \<and> (4, 5) \<in> set (pg_edges G) \<and> (2, 3) \<notin> set (pg_edges G))"
proof -
  have run: "create_linear_chains 3
      = Inr \<lparr>pg_nodes = [0, 1, 2, 3, 4, 5], pg_edges = [(0, 1), (1, 2), (3, 4), (4, 5)]\<rparr>"
    by code_simp
  show ?thesis
    using create_linear_chains_two_chains [of 3] run by simp
qed

section \<open>Properties of create_lucj_zigzag_layout\<close>

lemma lucj_loop_Some:
  assumes "lucj_loop is_iso N bcg G ni = Some r"
  shows "\<exists>j. j \<le> ni \<and> add_alpha_beta N (py_range 0 j) (G, 0) = r
              \<and> (\<forall>G_new k. r = Inr (G_new, k) \<longrightarrow> is_iso bcg G_new)"
proof (rule lucj_loop.raw_induct [OF _ assms])
  fix loop :: "subgraph_oracle \<Rightarrow> int \<Rightarrow> pygraph \<Rightarrow> pygraph \<Rightarrow> int \<Rightarrow> (py_error + pygraph \<times> int) option"
  fix is_iso N bcg G ni r
  assume IH: "\<And>is_iso N bcg G ni r. loop is_iso N bcg G ni = Some r \<Longrightarrow>
      \<exists>j. j \<le> ni \<and> add_alpha_beta N (py_range 0 j) (G, 0) = r
              \<and> (\<forall>G_new k. r = Inr (G_new, k) \<longrightarrow> is_iso bcg G_new)"
  assume body: "(case add_alpha_beta N (py_range 0 ni) (G, 0) of
        Inl e \<Rightarrow> Some (Inl e)
      | Inr (G_new, k) \<Rightarrow>
          if is_iso bcg G_new then Some (Inr (G_new, k))
          else loop is_iso N bcg G (ni - 1)) = Some r"
  show "\<exists>j. j \<le> ni \<and> add_alpha_beta N (py_range 0 j) (G, 0) = r
              \<and> (\<forall>G_new k. r = Inr (G_new, k) \<longrightarrow> is_iso bcg G_new)"
  proof (cases "add_alpha_beta N (py_range 0 ni) (G, 0)")
    case (Inl e)
    with body have "r = Inl e" by simp
    with Inl show ?thesis by (intro exI [of _ ni]) simp
  next
    case (Inr p)
    obtain G_new k where p: "p = (G_new, k)" by (cases p)
    show ?thesis
    proof (cases "is_iso bcg G_new")
      case True
      with body Inr p have "r = Inr (G_new, k)" by simp
      with Inr p True show ?thesis by (intro exI [of _ ni]) simp
    next
      case False
      with body Inr p have "loop is_iso N bcg G (ni - 1) = Some r" by simp
      from IH [OF this] obtain j where "j \<le> ni - 1"
        and "add_alpha_beta N (py_range 0 j) (G, 0) = r"
        and "\<forall>G_new k. r = Inr (G_new, k) \<longrightarrow> is_iso bcg G_new"
        by blast
      then show ?thesis by (intro exI [of _ j]) simp
    qed
  qed
qed

lemma add_alpha_beta_ok:
  assumes "\<forall>n \<in> set ns. 0 \<le> n \<and> n < N"
    and "int (length (pg_nodes G)) = 2 * N + k"
    and "0 \<le> k"
  shows "\<exists>G' k'. add_alpha_beta N ns (G, k) = Inr (G', k')
           \<and> int (length (pg_nodes G')) = 2 * N + k' \<and> k \<le> k'
           \<and> k' \<le> k + int (length ns)"
  using assms
proof (induction ns arbitrary: G k)
  case Nil
  then show ?case by simp
next
  case (Cons n ns)
  show ?case
  proof (cases "n mod 4 = 0")
    case False
    with Cons.IH [of G k] Cons.prems show ?thesis by force
  next
    case True
    define G1 where "G1 = add_node G (2 * N + k)"
    define G2 where "G2 = G1\<lparr>pg_edges := pg_edges G1 @ [(nat n, nat (2 * N + k))]\<rparr>"
    define G3 where "G3 = G2\<lparr>pg_edges := pg_edges G2 @ [(nat (2 * N + k), nat (n + N))]\<rparr>"
    have n: "0 \<le> n" "n < N" using Cons.prems(1) by simp_all
    have len1: "int (length (pg_nodes G1)) = 2 * N + k + 1"
      using Cons.prems(2) by (simp add: G1_def add_node_def)
    have e1: "add_edge G1 n (2 * N + k) = Inr G2"
      using n len1 Cons.prems(3) by (simp add: add_edge_def G2_def) linarith
    have len2: "int (length (pg_nodes G2)) = 2 * N + k + 1"
      using len1 by (simp add: G2_def)
    have e2: "add_edge G2 (2 * N + k) (n + N) = Inr G3"
      using n len2 Cons.prems(3) by (simp add: add_edge_def G3_def) linarith
    have len3: "int (length (pg_nodes G3)) = 2 * N + (k + 1)"
      using len2 by (simp add: G3_def)
    have step: "add_alpha_beta N (n # ns) (G, k) = add_alpha_beta N ns (G3, k + 1)"
      using True e1 e2 by (simp add: G1_def Let_def)
    from Cons.IH [OF _ len3] Cons.prems(1,3)
    obtain G' k' where "add_alpha_beta N ns (G3, k + 1) = Inr (G', k')"
      "int (length (pg_nodes G')) = 2 * N + k'" "k + 1 \<le> k'" "k' \<le> k + 1 + int (length ns)"
      by auto
    with step show ?thesis by auto
  qed
qed

lemma set_py_range: "set (py_range a b) = {a..<b}"
  by (auto simp: py_range_def)

lemma py_range_empty: "b \<le> a \<Longrightarrow> py_range a b = []"
  by (simp add: py_range_def)

lemma create_linear_chains_total:
  "\<exists>G. create_linear_chains N = Inr G \<and> (0 \<le> N \<longrightarrow> int (length (pg_nodes G)) = 2 * N)"
proof (cases "0 \<le> N")
  case True
  then obtain m where m: "N = int m"
    using nonneg_int_cases by blast
  show ?thesis
    unfolding m create_linear_chains_nat by simp
next
  case False
  then show ?thesis by (simp add: create_linear_chains_nonpos)
qed

lemma zigzag_step_ok:
  assumes "0 \<le> N \<longrightarrow> int (length (pg_nodes G)) = 2 * N" and "j \<le> N"
  shows "\<exists>G_new k. add_alpha_beta N (py_range 0 j) (G, 0) = Inr (G_new, k) \<and> 0 \<le> k
           \<and> (j \<le> 0 \<longrightarrow> G_new = G \<and> k = 0) \<and> (0 < k \<longrightarrow> 0 < N)"
proof (cases "j \<le> 0")
  case True
  then show ?thesis by (simp add: py_range_empty)
next
  case False
  with assms have "0 < N" "int (length (pg_nodes G)) = 2 * N + 0" by auto
  moreover have "\<forall>n \<in> set (py_range 0 j). 0 \<le> n \<and> n < N"
    using assms(2) by (auto simp: set_py_range)
  ultimately show ?thesis
    using add_alpha_beta_ok [of "py_range 0 j" N G 0] False by auto
qed

lemma lucj_loop_terminates:
  assumes "is_iso bcg G" and "0 \<le> N \<longrightarrow> int (length (pg_nodes G)) = 2 * N" and "ni \<le> N"
  shows "\<exists>G_new k. lucj_loop is_iso N bcg G ni = Some (Inr (G_new, k))"
  using assms(3)
proof (induction "nat ni" arbitrary: ni)
  case 0
  then have "add_alpha_beta N (py_range 0 ni) (G, 0) = Inr (G, 0)"
    by (simp add: py_range_empty)
  with assms(1) show ?case
    by (subst lucj_loop.simps) simp
next
  case (Suc d)
  from zigzag_step_ok [OF assms(2) Suc.prems]
  obtain G_new k where step: "add_alpha_beta N (py_range 0 ni) (G, 0) = Inr (G_new, k)"
    by blast
  show ?case
  proof (cases "is_iso bcg G_new")
    case True
    with step show ?thesis by (subst lucj_loop.simps) simp
  next
    case False
    have "d = nat (ni - 1)" using Suc.hyps(2) by simp
    moreover have "ni - 1 \<le> N" using Suc.prems by simp
    ultimately obtain G' k' where "lucj_loop is_iso N bcg G (ni - 1) = Some (Inr (G', k'))"
      using Suc.hyps(1) by blast
    with step False show ?thesis by (subst lucj_loop.simps) simp
  qed
qed

lemma lucj_loop_stuck:
  assumes "\<not> is_iso bcg G" and "ni \<le> 0"
  shows "lucj_loop is_iso N bcg G ni = None"
proof (rule ccontr)
  assume "lucj_loop is_iso N bcg G ni \<noteq> None"
  then obtain r where "lucj_loop is_iso N bcg G ni = Some r" by blast
  from lucj_loop_Some [OF this] obtain j where j: "j \<le> ni"
    and r: "add_alpha_beta N (py_range 0 j) (G, 0) = r"
    and ok: "\<forall>G_new k. r = Inr (G_new, k) \<longrightarrow> is_iso bcg G_new"
    by blast
  from j assms(2) have "py_range 0 j = []" by (simp add: py_range_empty)
  with r have "r = Inr (G, 0)" by simp
  with ok assms(1) show False by simp
qed

lemma add_alpha_beta_grows:
  assumes "add_alpha_beta N ns (G, k) = Inr (G', k')"
  shows "length (pg_nodes G) \<le> length (pg_nodes G')
       \<and> length (pg_edges G) \<le> length (pg_edges G')"
  using assms
proof (induction ns arbitrary: G k)
  case Nil
  then show ?case by simp
next
  case (Cons n ns)
  show ?case
  proof (cases "n mod 4 = 0")
    case False
    with Cons show ?thesis by simp
  next
    case True
    define G1 where "G1 = add_node G (2 * N + k)"
    from Cons.prems True obtain G2 G3 where
      e1: "add_edge G1 n (2 * N + k) = Inr G2" and
      e2: "add_edge G2 (2 * N + k) (n + N) = Inr G3" and
      rest: "add_alpha_beta N ns (G3, k + 1) = Inr (G', k')"
      by (auto simp: G1_def Let_def split: sum.splits)
    from e1 have g2: "pg_nodes G2 = pg_nodes G1" "length (pg_edges G1) \<le> length (pg_edges G2)"
      by (auto simp: add_edge_def split: if_splits)
    from e2 have g3: "pg_nodes G3 = pg_nodes G2" "length (pg_edges G2) \<le> length (pg_edges G3)"
      by (auto simp: add_edge_def split: if_splits)
    have g1: "length (pg_nodes G) \<le> length (pg_nodes G1)" "pg_edges G1 = pg_edges G"
      by (simp_all add: G1_def add_node_def)
    from Cons.IH [OF rest] g1 g2 g3 show ?thesis by simp
  qed
qed

lemma add_alpha_beta_extends:
  assumes "add_alpha_beta N ns (G, k) = Inr (G', k')"
    and "int (length (pg_nodes G)) = 2 * N + k"
  shows "length (pg_nodes G) \<le> length (pg_nodes G')
     \<and> (\<exists>extra. pg_edges G' = pg_edges G @ extra
           \<and> (\<forall>(a, b) \<in> set extra. length (pg_nodes G) \<le> a \<or> length (pg_nodes G) \<le> b))"
  using assms
proof (induction ns arbitrary: G k)
  case Nil
  then show ?case by simp
next
  case (Cons n ns)
  show ?case
  proof (cases "n mod 4 = 0")
    case False
    with Cons show ?thesis by simp
  next
    case True
    define G1 where "G1 = add_node G (2 * N + k)"
    from Cons.prems(1) True obtain G2 G3 where
      e1: "add_edge G1 n (2 * N + k) = Inr G2" and
      e2: "add_edge G2 (2 * N + k) (n + N) = Inr G3" and
      rest: "add_alpha_beta N ns (G3, k + 1) = Inr (G', k')"
      by (auto simp: G1_def Let_def split: sum.splits)
    have new: "nat (2 * N + k) = length (pg_nodes G)"
      using Cons.prems(2) by simp
    have g1: "pg_nodes G1 = pg_nodes G @ [2 * N + k]" "pg_edges G1 = pg_edges G"
      by (simp_all add: G1_def add_node_def)
    from e1 have g2: "pg_nodes G2 = pg_nodes G1"
      "pg_edges G2 = pg_edges G1 @ [(nat n, nat (2 * N + k))]"
      by (auto simp: add_edge_def split: if_splits)
    from e2 have g3: "pg_nodes G3 = pg_nodes G2"
      "pg_edges G3 = pg_edges G2 @ [(nat (2 * N + k), nat (n + N))]"
      by (auto simp: add_edge_def split: if_splits)
    have len3: "int (length (pg_nodes G3)) = 2 * N + (k + 1)"
      using Cons.prems(2) by (simp add: g3 g2 g1)
    from Cons.IH [OF rest len3] obtain extra where
      nodes: "length (pg_nodes G3) \<le> length (pg_nodes G')" and
      edges: "pg_edges G' = pg_edges G3 @ extra" and
      touch: "\<forall>(a, b) \<in> set extra. length (pg_nodes G3) \<le> a \<or> length (pg_nodes G3) \<le> b"
      by blast
    have "length (pg_nodes G) \<le> length (pg_nodes G3)"
      by (simp add: g3 g2 g1)
    with nodes touch have
      "length (pg_nodes G) \<le> length (pg_nodes G')"
      "\<forall>(a, b) \<in> set extra. length (pg_nodes G) \<le> a \<or> length (pg_nodes G) \<le> b"
      by auto
    moreover have "pg_edges G'
        = pg_edges G @ ((nat n, nat (2 * N + k)) # (nat (2 * N + k), nat (n + N)) # extra)"
      by (simp add: edges g3 g2 g1)
    ultimately show ?thesis
      using new by (intro conjI exI [of _ "(nat n, nat (2 * N + k))
          # (nat (2 * N + k), nat (n + N)) # extra"]) auto
  qed
qed

lemma subgraph_isomorphic_restrict:
  assumes nodes: "length (pg_nodes G) \<le> length (pg_nodes G')"
    and edges: "pg_edges G' = pg_edges G @ extra"
    and touch: "\<forall>(a, b) \<in> set extra. length (pg_nodes G) \<le> a \<or> length (pg_nodes G) \<le> b"
    and iso: "subgraph_isomorphic induced B G'"
  shows "subgraph_isomorphic induced B G"
proof -
  have adj: "adjacent G' a b \<longleftrightarrow> adjacent G a b"
    if "a < length (pg_nodes G)" "b < length (pg_nodes G)" for a b
    using that touch by (auto simp: adjacent_def edges)
  from iso obtain f where
    inj: "inj_on f {..<length (pg_nodes G')}" and
    range: "\<forall>a < length (pg_nodes G'). f a < length (pg_nodes B)" and
    pres: "\<forall>a < length (pg_nodes G'). \<forall>b < length (pg_nodes G').
              adjacent G' a b \<longrightarrow> adjacent B (f a) (f b)" and
    refl: "induced \<longrightarrow> (\<forall>a < length (pg_nodes G'). \<forall>b < length (pg_nodes G').
              adjacent B (f a) (f b) \<longrightarrow> adjacent G' a b)"
    unfolding subgraph_isomorphic_def by blast
  have "inj_on f {..<length (pg_nodes G)}"
    using inj nodes by (auto intro: inj_on_subset)
  moreover have "\<forall>a < length (pg_nodes G). f a < length (pg_nodes B)"
    using range nodes by auto
  moreover have "\<forall>a < length (pg_nodes G). \<forall>b < length (pg_nodes G).
              adjacent G a b \<longrightarrow> adjacent B (f a) (f b)"
    using pres nodes adj by (metis less_le_trans)
  moreover have "induced \<longrightarrow> (\<forall>a < length (pg_nodes G). \<forall>b < length (pg_nodes G).
              adjacent B (f a) (f b) \<longrightarrow> adjacent G a b)"
    using refl nodes adj by (metis less_le_trans)
  ultimately show ?thesis
    unfolding subgraph_isomorphic_def by blast
qed

lemma subgraph_isomorphic_chains:
  assumes "create_linear_chains N = Inr G" and "1 \<le> j" and "j \<le> N"
    and "add_alpha_beta N (py_range 0 j) (G, 0) = Inr (G_new, k)"
    and "subgraph_isomorphic induced B G_new"
  shows "subgraph_isomorphic induced B G"
proof -
  from create_linear_chains_total [of N] assms(1,2,3)
  have "int (length (pg_nodes G)) = 2 * N + 0" by auto
  from add_alpha_beta_extends [OF assms(4) this] obtain extra where
    "length (pg_nodes G) \<le> length (pg_nodes G_new)"
    "pg_edges G_new = pg_edges G @ extra"
    "\<forall>(a, b) \<in> set extra. length (pg_nodes G) \<le> a \<or> length (pg_nodes G) \<le> b"
    by blast
  then show ?thesis using assms(5) by (rule subgraph_isomorphic_restrict)
qed

lemma create_lucj_zigzag_layout_diverges:
  assumes G: "create_linear_chains N = Inr G"
    and no: "\<not> is_iso bcg G"
    and mono: "\<forall>j G_new k. 1 \<le> j \<and> j \<le> N
                \<and> add_alpha_beta N (py_range 0 j) (G, 0) = Inr (G_new, k)
                \<and> is_iso bcg G_new \<longrightarrow> is_iso bcg G"
  shows "create_lucj_zigzag_layout is_iso N bcg = None"
proof (rule ccontr)
  from create_linear_chains_total [of N] G
  have len: "0 \<le> N \<longrightarrow> int (length (pg_nodes G)) = 2 * N" by simp
  assume "create_lucj_zigzag_layout is_iso N bcg \<noteq> None"
  then obtain r where "lucj_loop is_iso N bcg G N = Some r"
    by (auto simp: create_lucj_zigzag_layout_def G)
  from lucj_loop_Some [OF this] obtain j where j: "j \<le> N"
    and r: "add_alpha_beta N (py_range 0 j) (G, 0) = r"
    and ok: "\<forall>G_new k. r = Inr (G_new, k) \<longrightarrow> is_iso bcg G_new"
    by blast
  from zigzag_step_ok [OF len j] obtain G_new k
    where step: "add_alpha_beta N (py_range 0 j) (G, 0) = Inr (G_new, k)"
      and first: "j \<le> 0 \<longrightarrow> G_new = G \<and> k = 0"
    by blast
  from step r ok have acc: "is_iso bcg G_new" by simp
  show False
  proof (cases "j \<le> 0")
    case True
    with first acc no show False by simp
  next
    case False
    then have "1 \<le> j" by simp
    with mono j step acc have "is_iso bcg G" by blast
    with no show False by simp
  qed
qed

subsection \<open>Two concrete runs\<close>

lemma demo_chains: "create_linear_chains 5 = Inr demo_chains"
  unfolding demo_chains_def by code_simp

lemma demo_step5:
  "add_alpha_beta 5 (py_range 0 5) (demo_chains, 0)
     = Inr (\<lparr>pg_nodes = [0, 1, 2, 3, 4, 5, 6, 7, 8, 9, 10, 11],
             pg_edges = [(0, 1), (1, 2), (2, 3), (3, 4), (5, 6), (6, 7), (7, 8), (8, 9),
                         (0, 10), (10, 5), (4, 11), (11, 9)]\<rparr>, 2)"
  unfolding demo_chains_def by code_simp

lemma demo_step4:
  "add_alpha_beta 5 (py_range 0 4) (demo_chains, 0) = Inr (demo_coupling_graph, 1)"
  unfolding demo_chains_def demo_coupling_graph_def by code_simp

lemma demo_run:
  "create_lucj_zigzag_layout demo_iso 5 demo_coupling_graph = Some (Inr (demo_coupling_graph, 1))"
proof -
  have "lucj_loop demo_iso 5 demo_coupling_graph demo_chains 4
      = Some (Inr (demo_coupling_graph, 1))"
    by (subst lucj_loop.simps) (simp add: demo_step4 demo_iso_def)
  then have "lucj_loop demo_iso 5 demo_coupling_graph demo_chains 5
      = Some (Inr (demo_coupling_graph, 1))"
    by (subst lucj_loop.simps) (simp add: demo_step5 demo_iso_def demo_coupling_graph_def)
  then show ?thesis
    by (simp add: create_lucj_zigzag_layout_def demo_chains)
qed

lemma demo_line_chains:
  "create_linear_chains 2 = Inr \<lparr>pg_nodes = [0, 1, 2, 3], pg_edges = [(0, 1), (2, 3)]\<rparr>"
  by code_simp

text \<open>
  C3. Whenever \<open>create_lucj_zigzag_layout\<close> returns a graph, the external subgraph test
  has accepted that graph against the backend coupling graph, and the graph is the two
  linear chains extended by the connecting qubits of some iteration count
  \<open>j \<le> num_orbitals\<close>. The test itself is the parameter \<open>is_iso\<close>: no definition of this
  development decides it.
\<close>

theorem create_lucj_zigzag_layout_isomorphic:
  assumes "create_lucj_zigzag_layout is_iso N bcg = Some (Inr (G_new, k))"
  shows "is_iso bcg G_new
     \<and> (\<exists>G j. create_linear_chains N = Inr G \<and> j \<le> N
              \<and> add_alpha_beta N (py_range 0 j) (G, 0) = Inr (G_new, k))"
proof -
  from create_linear_chains_total [of N] obtain G where G: "create_linear_chains N = Inr G"
    by blast
  with assms have run: "lucj_loop is_iso N bcg G N = Some (Inr (G_new, k))"
    by (simp add: create_lucj_zigzag_layout_def)
  from lucj_loop_Some [OF run] obtain j where j: "j \<le> N"
    and r: "add_alpha_beta N (py_range 0 j) (G, 0) = Inr (G_new, k)"
    and ok: "\<forall>G' k'. Inr (G_new, k) = (Inr (G', k') :: py_error + pygraph \<times> int)
                \<longrightarrow> is_iso bcg G'"
    by blast
  from ok have "is_iso bcg G_new" by simp
  with G j r show ?thesis by blast
qed

theorem create_lucj_zigzag_layout_isomorphic_witness:
  "create_lucj_zigzag_layout demo_iso 5 demo_coupling_graph
     = Some (Inr (demo_coupling_graph, 1))
   \<and> demo_iso demo_coupling_graph demo_coupling_graph
   \<and> create_linear_chains 5 = Inr demo_chains
   \<and> add_alpha_beta 5 (py_range 0 4) (demo_chains, 0) = Inr (demo_coupling_graph, 1)"
  using create_lucj_zigzag_layout_isomorphic [OF demo_run] demo_run demo_chains demo_step4
  by simp

text \<open>
  C10. \<open>create_linear_chains\<close> always returns a graph \<open>G\<close>, and for every external test:
  if the test accepts \<open>G\<close> against the backend, \<open>create_lucj_zigzag_layout\<close> returns; if it
  rejects \<open>G\<close>, the loop entered with \<open>num_iters \<le> 0\<close> never returns, since every further
  iteration tests \<open>G\<close> again; and if it rejects \<open>G\<close> and accepts a zigzag graph only when
  it accepts the chains that the zigzag graph contains, then \<open>create_lucj_zigzag_layout\<close>
  never returns. Subgraph isomorphism, induced or not, is such a test: with it,
  \<open>create_lucj_zigzag_layout\<close> returns exactly when \<open>G\<close> is subgraph-isomorphic to the
  backend coupling graph.
\<close>

theorem create_lucj_zigzag_layout_termination:
  "\<exists>G. create_linear_chains N = Inr G
     \<and> (is_iso bcg G \<longrightarrow>
          (\<exists>G_new k. create_lucj_zigzag_layout is_iso N bcg = Some (Inr (G_new, k))))
     \<and> (\<not> is_iso bcg G \<longrightarrow> (\<forall>ni \<le> 0. lucj_loop is_iso N bcg G ni = None))
     \<and> (\<not> is_iso bcg G
          \<and> (\<forall>j G_new k. 1 \<le> j \<and> j \<le> N
                \<and> add_alpha_beta N (py_range 0 j) (G, 0) = Inr (G_new, k)
                \<and> is_iso bcg G_new \<longrightarrow> is_iso bcg G)
          \<longrightarrow> create_lucj_zigzag_layout is_iso N bcg = None)
     \<and> ((\<exists>r. create_lucj_zigzag_layout (subgraph_isomorphic induced) N bcg = Some r)
          \<longleftrightarrow> subgraph_isomorphic induced bcg G)"
proof -
  from create_linear_chains_total [of N] obtain G where G: "create_linear_chains N = Inr G"
    and len: "0 \<le> N \<longrightarrow> int (length (pg_nodes G)) = 2 * N"
    by blast
  have terminates: "\<exists>G_new k. create_lucj_zigzag_layout is_iso N bcg = Some (Inr (G_new, k))"
    if "is_iso bcg G" for is_iso
    using that len lucj_loop_terminates [of is_iso bcg G N N]
    by (simp add: create_lucj_zigzag_layout_def G)
  have stuck: "\<forall>ni \<le> 0. lucj_loop is_iso N bcg G ni = None" if "\<not> is_iso bcg G"
    using that by (simp add: lucj_loop_stuck)
  have diverges: "create_lucj_zigzag_layout is_iso N bcg = None"
    if "\<not> is_iso bcg G"
      and "\<forall>j G_new k. 1 \<le> j \<and> j \<le> N
                \<and> add_alpha_beta N (py_range 0 j) (G, 0) = Inr (G_new, k)
                \<and> is_iso bcg G_new \<longrightarrow> is_iso bcg G"
    using G that by (rule create_lucj_zigzag_layout_diverges)
  have exact: "(\<exists>r. create_lucj_zigzag_layout (subgraph_isomorphic induced) N bcg = Some r)
          \<longleftrightarrow> subgraph_isomorphic induced bcg G"
  proof
    assume ret: "\<exists>r. create_lucj_zigzag_layout (subgraph_isomorphic induced) N bcg = Some r"
    show "subgraph_isomorphic induced bcg G"
    proof (rule ccontr)
      assume no: "\<not> subgraph_isomorphic induced bcg G"
      have "\<forall>j G_new k. 1 \<le> j \<and> j \<le> N
                \<and> add_alpha_beta N (py_range 0 j) (G, 0) = Inr (G_new, k)
                \<and> subgraph_isomorphic induced bcg G_new
              \<longrightarrow> subgraph_isomorphic induced bcg G"
        using subgraph_isomorphic_chains [OF G] by blast
      with G no have "create_lucj_zigzag_layout (subgraph_isomorphic induced) N bcg = None"
        by (rule create_lucj_zigzag_layout_diverges)
      with ret show False by simp
    qed
  next
    assume "subgraph_isomorphic induced bcg G"
    from terminates [of "subgraph_isomorphic induced", OF this]
    show "\<exists>r. create_lucj_zigzag_layout (subgraph_isomorphic induced) N bcg = Some r"
      by blast
  qed
  from G terminates [of is_iso] stuck diverges exact show ?thesis by blast
qed

theorem create_lucj_zigzag_layout_termination_witness:
  "(\<exists>G_new k. create_lucj_zigzag_layout demo_iso 5 demo_coupling_graph
                 = Some (Inr (G_new, k)))
   \<and> \<not> demo_iso demo_line \<lparr>pg_nodes = [0, 1, 2, 3], pg_edges = [(0, 1), (2, 3)]\<rparr>
   \<and> create_lucj_zigzag_layout demo_iso 2 demo_line = None"
proof -
  let ?G = "\<lparr>pg_nodes = [0, 1, 2, 3], pg_edges = [(0, 1), (2, 3)]\<rparr>"
  have yes: "demo_iso demo_coupling_graph demo_chains"
    by (simp add: demo_iso_def demo_coupling_graph_def demo_chains_def)
  have no: "\<not> demo_iso demo_line ?G"
    by (simp add: demo_iso_def demo_line_def)
  have mono: "\<forall>j G_new k. 1 \<le> j \<and> j \<le> 2
        \<and> add_alpha_beta 2 (py_range 0 j) (?G, 0) = Inr (G_new, k)
        \<and> demo_iso demo_line G_new \<longrightarrow> demo_iso demo_line ?G"
    using add_alpha_beta_grows [where G = ?G] by (fastforce simp: demo_iso_def)
  have "\<exists>G_new k. create_lucj_zigzag_layout demo_iso 5 demo_coupling_graph
                 = Some (Inr (G_new, k))"
    using create_lucj_zigzag_layout_termination [of 5 demo_iso demo_coupling_graph True] yes
    by (simp add: demo_chains)
  moreover have "create_lucj_zigzag_layout demo_iso 2 demo_line = None"
  proof -
    from create_lucj_zigzag_layout_termination [of 2 demo_iso demo_line True]
    have imp: "\<not> demo_iso demo_line ?G
          \<and> (\<forall>j G_new k. 1 \<le> j \<and> j \<le> 2
                \<and> add_alpha_beta 2 (py_range 0 j) (?G, 0) = Inr (G_new, k)
                \<and> demo_iso demo_line G_new \<longrightarrow> demo_iso demo_line ?G)
          \<longrightarrow> create_lucj_zigzag_layout demo_iso 2 demo_line = None"
      unfolding demo_line_chains by (elim exE conjE) simp
    from no mono have "\<not> demo_iso demo_line ?G
          \<and> (\<forall>j G_new k. 1 \<le> j \<and> j \<le> 2
                \<and> add_alpha_beta 2 (py_range 0 j) (?G, 0) = Inr (G_new, k)
                \<and> demo_iso demo_line G_new \<longrightarrow> demo_iso demo_line ?G)"
      by (rule conjI)
    with imp show ?thesis by (rule mp)
  qed
  ultimately show ?thesis using no by simp
qed

section \<open>Properties of lightweight_layout_error_scoring\<close>

lemma uses_bad_edge_False:
  "uses_bad_edge bce layout ves = Inr False \<longleftrightarrow>
     (\<forall>e \<in> set ves. \<exists>pe. physical_edge layout e = Inr pe
            \<and> edge_tuple pe \<notin> set bce \<and> edge_tuple (snd pe, fst pe) \<notin> set bce)"
  by (induction ves) (auto split: sum.splits if_splits)

lemma uses_bad_edge_returns:
  assumes "\<forall>e \<in> set ves. \<exists>pe. physical_edge layout e = Inr pe"
  shows "\<exists>skip. uses_bad_edge bce layout ves = Inr skip"
  using assms by (induction ves) (auto split: sum.splits)

lemma total_2q_error_loop_foldl:
  "total_2q_error_loop props name layout ves acc = Inr t \<longleftrightarrow>
     (\<exists>ges. list_all2 (\<lambda>e ge. \<exists>pe. physical_edge layout e = Inr pe
                     \<and> lookup_gate_error props name pe = Inr ge) ves ges
            \<and> t = foldl (+) acc ges)"
proof (induction ves arbitrary: acc)
  case Nil
  then show ?case by auto
next
  case (Cons e ves)
  show ?case
  proof
    assume run: "total_2q_error_loop props name layout (e # ves) acc = Inr t"
    then obtain pe ge where pe: "physical_edge layout e = Inr pe"
      and ge: "lookup_gate_error props name pe = Inr ge"
      and rest: "total_2q_error_loop props name layout ves (acc + ge) = Inr t"
      by (auto split: sum.splits)
    from rest obtain ges where
      "list_all2 (\<lambda>e ge. \<exists>pe. physical_edge layout e = Inr pe
                     \<and> lookup_gate_error props name pe = Inr ge) ves ges"
      and "t = foldl (+) (acc + ge) ges"
      unfolding Cons.IH by blast
    with pe ge show "\<exists>ges. list_all2 (\<lambda>e ge. \<exists>pe. physical_edge layout e = Inr pe
                     \<and> lookup_gate_error props name pe = Inr ge) (e # ves) ges
            \<and> t = foldl (+) acc ges"
      by (intro exI [of _ "ge # ges"]) (cases pe, auto)
  next
    assume "\<exists>ges. list_all2 (\<lambda>e ge. \<exists>pe. physical_edge layout e = Inr pe
                     \<and> lookup_gate_error props name pe = Inr ge) (e # ves) ges
            \<and> t = foldl (+) acc ges"
    then obtain ge ges pe where pe: "physical_edge layout e = Inr pe"
      and ge: "lookup_gate_error props name pe = Inr ge"
      and rest: "list_all2 (\<lambda>e ge. \<exists>pe. physical_edge layout e = Inr pe
                     \<and> lookup_gate_error props name pe = Inr ge) ves ges"
      and t: "t = foldl (+) (acc + ge) ges"
      by (auto simp: list_all2_Cons1)
    from rest t have "total_2q_error_loop props name layout ves (acc + ge) = Inr t"
      unfolding Cons.IH by blast
    with pe ge show "total_2q_error_loop props name layout (e # ves) acc = Inr t"
      by simp
  qed
qed

lemma total_measurement_error_loop_foldl:
  "total_measurement_error_loop props layout acc = Inr t \<longleftrightarrow>
     (\<exists>ms. list_all2 (\<lambda>q m. readout_error props q = Inr m) layout ms
           \<and> t = foldl (+) acc ms)"
proof (induction layout arbitrary: acc)
  case Nil
  then show ?case by auto
next
  case (Cons q layout)
  show ?case
  proof
    assume "total_measurement_error_loop props (q # layout) acc = Inr t"
    then obtain m where m: "readout_error props q = Inr m"
      and rest: "total_measurement_error_loop props layout (acc + m) = Inr t"
      by (auto split: sum.splits)
    from rest obtain ms where
      "list_all2 (\<lambda>q m. readout_error props q = Inr m) layout ms"
      and "t = foldl (+) (acc + m) ms"
      unfolding Cons.IH by blast
    with m show "\<exists>ms. list_all2 (\<lambda>q m. readout_error props q = Inr m) (q # layout) ms
           \<and> t = foldl (+) acc ms"
      by (intro exI [of _ "m # ms"]) simp
  next
    assume "\<exists>ms. list_all2 (\<lambda>q m. readout_error props q = Inr m) (q # layout) ms
           \<and> t = foldl (+) acc ms"
    then obtain m ms where m: "readout_error props q = Inr m"
      and rest: "list_all2 (\<lambda>q m. readout_error props q = Inr m) layout ms"
      and t: "t = foldl (+) (acc + m) ms"
      by (auto simp: list_all2_Cons1)
    from rest t have "total_measurement_error_loop props layout (acc + m) = Inr t"
      unfolding Cons.IH by blast
    with m show "total_measurement_error_loop props (q # layout) acc = Inr t"
      by simp
  qed
qed

lemma lookup_gate_error_Inr:
  "lookup_gate_error props name pe = Inr ge \<longleftrightarrow>
     gate_error props name pe = Inr ge
     \<or> (\<exists>x. gate_error props name pe = Inl x) \<and> gate_error props name (snd pe, fst pe) = Inr ge"
  by (auto simp: lookup_gate_error_def split: sum.splits)

lemma score_layouts_loop_Inr:
  assumes "score_layouts_loop props ves name brq bce layouts scores = Inr out"
  shows "\<exists>new. out = scores @ new
     \<and> map fst new = filter (\<lambda>l. (\<forall>q \<in> set l. q \<notin> set brq)
                                \<and> uses_bad_edge bce l ves = Inr False) layouts
     \<and> (\<forall>(l, s) \<in> set new. \<exists>t2 tm. total_2q_error_loop props name l ves 0 = Inr t2
            \<and> total_measurement_error_loop props l 0 = Inr tm \<and> s = t2 + tm)"
  using assms
proof (induction layouts arbitrary: scores)
  case Nil
  then show ?case by simp
next
  case (Cons layout layouts)
  show ?case
  proof (cases "\<exists>q \<in> set layout. q \<in> set brq")
    case True
    with Cons.prems have "score_layouts_loop props ves name brq bce layouts scores = Inr out"
      by simp
    from Cons.IH [OF this] True show ?thesis by auto
  next
    case False
    with Cons.prems obtain skip where skip: "uses_bad_edge bce layout ves = Inr skip"
      by (auto split: sum.splits)
    show ?thesis
    proof (cases skip)
      case True
      with Cons.prems False skip
      have "score_layouts_loop props ves name brq bce layouts scores = Inr out"
        by simp
      from Cons.IH [OF this] True skip show ?thesis by auto
    next
      case nskip: False
      with Cons.prems False skip obtain t2 tm where
        t2: "total_2q_error_loop props name layout ves 0 = Inr t2" and
        tm: "total_measurement_error_loop props layout 0 = Inr tm" and
        rest: "score_layouts_loop props ves name brq bce layouts
                 (scores @ [(layout, t2 + tm)]) = Inr out"
        by (auto split: sum.splits)
      from Cons.IH [OF rest] obtain new where new: "out = (scores @ [(layout, t2 + tm)]) @ new"
        "map fst new = filter (\<lambda>l. (\<forall>q \<in> set l. q \<notin> set brq)
                                \<and> uses_bad_edge bce l ves = Inr False) layouts"
        "\<forall>(l, s) \<in> set new. \<exists>t2 tm. total_2q_error_loop props name l ves 0 = Inr t2
            \<and> total_measurement_error_loop props l 0 = Inr tm \<and> s = t2 + tm"
        by blast
      with False skip nskip t2 tm show ?thesis
        by (intro exI [of _ "(layout, t2 + tm) # new"]) auto
    qed
  qed
qed

lemma score_layouts_loop_returns:
  assumes index: "\<forall>l \<in> set layouts. (\<forall>q \<in> set l. q \<notin> set brq) \<longrightarrow>
                    (\<forall>e \<in> set ves. \<exists>pe. physical_edge l e = Inr pe)"
    and lookups: "\<forall>l \<in> set layouts.
        (\<forall>q \<in> set l. q \<notin> set brq) \<and> uses_bad_edge bce l ves = Inr False \<longrightarrow>
        (\<exists>t2. total_2q_error_loop props name l ves 0 = Inr t2)
        \<and> (\<exists>tm. total_measurement_error_loop props l 0 = Inr tm)"
  shows "\<exists>out. score_layouts_loop props ves name brq bce layouts scores = Inr out"
  using assms
proof (induction layouts arbitrary: scores)
  case Nil
  then show ?case by simp
next
  case (Cons layout layouts)
  have rest: "\<exists>out. score_layouts_loop props ves name brq bce layouts scores' = Inr out"
    for scores'
    using Cons.IH [of scores'] Cons.prems by simp
  show ?case
  proof (cases "\<exists>q \<in> set layout. q \<in> set brq")
    case True
    with rest [of scores] show ?thesis by simp
  next
    case False
    with Cons.prems(1) have "\<forall>e \<in> set ves. \<exists>pe. physical_edge layout e = Inr pe"
      by simp
    from uses_bad_edge_returns [OF this] obtain skip where
      skip: "uses_bad_edge bce layout ves = Inr skip"
      by blast
    show ?thesis
    proof (cases skip)
      case True
      with False skip rest [of scores] show ?thesis by simp
    next
      case nskip: False
      with False skip Cons.prems(2) obtain t2 tm where
        "total_2q_error_loop props name layout ves 0 = Inr t2"
        "total_measurement_error_loop props layout 0 = Inr tm"
        by auto
      with False skip nskip rest [of "scores @ [(layout, t2 + tm)]"] show ?thesis
        by simp
    qed
  qed
qed

lemma lightweight_layout_error_scoring_Inr:
  assumes "lightweight_layout_error_scoring backend ves layouts name brq bce = Inr out"
  shows "\<exists>props scores. properties backend = Inr props
           \<and> score_layouts_loop props ves name brq bce layouts [] = Inr scores
           \<and> out = sort_key snd scores"
  using assms by (auto simp: lightweight_layout_error_scoring_def split: sum.splits)

lemma demo_scoring:
  "lightweight_layout_error_scoring demo_backend [(0, 1), (1, 2)] demo_layouts ''cz''
     [5] [PyTuple [4, 3]]
   = Inr [([2, 1, 0], 34 / 100), ([0, 1, 2], 34 / 100), ([1, 2, 3], 68 / 100)]"
  by (simp add: lightweight_layout_error_scoring_def demo_backend_def demo_props_def
      demo_layouts_def physical_edge_def py_index_def lookup_gate_error_def edge_tuple_def)

text \<open>
  The float backend on the layout \<open>[3, 4, 2]\<close>. The gate errors are \<open>0.07\<close> for the edge
  \<open>(3, 4)\<close> and, by the reverse lookup, \<open>0.06\<close> for the edge \<open>(4, 2)\<close>; the readout errors
  are \<open>0.3\<close>, \<open>0.4\<close> and \<open>0.2\<close>. Added in the order of the code the two totals are
  \<open>0.13\<close> and \<open>0.8999999999999999\<close>, and the score is \<open>1.0299999999999998\<close>.
\<close>

lemmas float_arith =
  float_div_def plus_py_float_def zero_py_float_def round_binary64_def binary_exponent_def
  pow2_def round_half_even_def Let_def compute_bitlen

lemma demo_float_gate_errors:
  "0 + float_div 7 100 + float_div 6 100 = PyFloat (1170935903116329 / 9007199254740992)"
  by (simp add: float_arith)

lemma demo_float_readout_errors:
  "0 + float_div 3 10 + float_div 4 10 + float_div 2 10
     = PyFloat (2026619832316723 / 2251799813685248)"
  by (simp add: float_arith)

lemma demo_float_score:
  "PyFloat (1170935903116329 / 9007199254740992) + PyFloat (2026619832316723 / 2251799813685248)
     = PyFloat (2319353808095805 / 2251799813685248)"
  by (simp add: float_arith)

lemma demo_float_scoring:
  "lightweight_layout_error_scoring demo_float_backend [(0, 1), (1, 2)] [[3, 4, 2]] ''cz'' [] []
     = Inr [([3, 4, 2], PyFloat (2319353808095805 / 2251799813685248))]"
  by (simp add: lightweight_layout_error_scoring_def demo_float_backend_def
      demo_float_props_def physical_edge_def py_index_def lookup_gate_error_def
      demo_float_gate_errors demo_float_readout_errors demo_float_score)

text \<open>
  C1. The score paired with a layout that is not filtered out is the sum over the virtual
  edges of the two-qubit gate error of the physical edge (the forward lookup, or the
  reverse lookup when the forward lookup raises) plus the sum of the readout errors of the
  qubits of the layout, each total starting at \<open>0\<close> and added up in the order of the loop.
  First, when \<open>lightweight_layout_error_scoring\<close> returns, the layouts of the result are, up to
  order, the layouts of the input that pass both filters, and each is paired with that
  score. Second, the function does return when the properties are available, every
  virtual edge indexes into every layout without a bad qubit, and for every layout that
  passes both filters the gate error of every physical edge is found by the forward or by
  the reverse lookup and the readout error of every qubit is found.
\<close>

theorem lightweight_layout_error_scoring_score:
  fixes backend :: "('q, 'v :: {linorder, zero, plus}) backend"
  shows
  "(lightweight_layout_error_scoring backend ves layouts name brq bce = Inr out \<longrightarrow>
      (\<exists>props. properties backend = Inr props
         \<and> mset (map fst out)
             = mset (filter (\<lambda>l. (\<forall>q \<in> set l. q \<notin> set brq)
                                   \<and> uses_bad_edge bce l ves = Inr False) layouts)
         \<and> (\<forall>(layout, score) \<in> set out. \<exists>ges ms.
               list_all2 (\<lambda>e ge. \<exists>pe. physical_edge layout e = Inr pe
                   \<and> (gate_error props name pe = Inr ge
                      \<or> (\<exists>x. gate_error props name pe = Inl x)
                        \<and> gate_error props name (snd pe, fst pe) = Inr ge)) ves ges
               \<and> list_all2 (\<lambda>q m. readout_error props q = Inr m) layout ms
               \<and> score = foldl (+) 0 ges + foldl (+) 0 ms)))
   \<and> (properties backend = Inr props
        \<and> (\<forall>layout \<in> set layouts. (\<forall>q \<in> set layout. q \<notin> set brq) \<longrightarrow>
              (\<forall>e \<in> set ves. \<exists>pe. physical_edge layout e = Inr pe))
        \<and> (\<forall>layout \<in> set layouts.
              (\<forall>q \<in> set layout. q \<notin> set brq) \<and> uses_bad_edge bce layout ves = Inr False \<longrightarrow>
              (\<forall>e \<in> set ves. \<forall>pe. physical_edge layout e = Inr pe \<longrightarrow>
                  (\<exists>ge. gate_error props name pe = Inr ge
                        \<or> gate_error props name (snd pe, fst pe) = Inr ge))
              \<and> (\<forall>q \<in> set layout. \<exists>m. readout_error props q = Inr m)) \<longrightarrow>
      (\<exists>result. lightweight_layout_error_scoring backend ves layouts name brq bce = Inr result))"
proof (intro conjI impI)
  assume run: "lightweight_layout_error_scoring backend ves layouts name brq bce = Inr out"
  from lightweight_layout_error_scoring_Inr [OF run] obtain props scores where
    props: "properties backend = Inr props" and
    loop: "score_layouts_loop props ves name brq bce layouts [] = Inr scores" and
    out: "out = sort_key snd scores"
    by blast
  from score_layouts_loop_Inr [OF loop] have
    kept: "map fst scores = filter (\<lambda>l. (\<forall>q \<in> set l. q \<notin> set brq)
                                \<and> uses_bad_edge bce l ves = Inr False) layouts" and
    totals: "\<forall>(l, s) \<in> set scores. \<exists>t2 tm. total_2q_error_loop props name l ves 0 = Inr t2
            \<and> total_measurement_error_loop props l 0 = Inr tm \<and> s = t2 + tm"
    by auto
  have "mset (map fst out) = mset (map fst scores)"
    by (simp add: out)
  then have perm: "mset (map fst out)
         = mset (filter (\<lambda>l. (\<forall>q \<in> set l. q \<notin> set brq)
                               \<and> uses_bad_edge bce l ves = Inr False) layouts)"
    by (simp only: kept)
  have each: "\<exists>ges ms.
           list_all2 (\<lambda>e ge. \<exists>pe. physical_edge layout e = Inr pe
               \<and> (gate_error props name pe = Inr ge
                  \<or> (\<exists>x. gate_error props name pe = Inl x)
                    \<and> gate_error props name (snd pe, fst pe) = Inr ge)) ves ges
           \<and> list_all2 (\<lambda>q m. readout_error props q = Inr m) layout ms
           \<and> score = foldl (+) 0 ges + foldl (+) 0 ms"
    if "(layout, score) \<in> set out" for layout score
  proof -
    from that have "(layout, score) \<in> set scores" by (simp add: out)
    with totals obtain t2 tm where
      t2: "total_2q_error_loop props name layout ves 0 = Inr t2" and
      tm: "total_measurement_error_loop props layout 0 = Inr tm" and
      s: "score = t2 + tm"
      by blast
    from t2 obtain ges where
      ges: "list_all2 (\<lambda>e ge. \<exists>pe. physical_edge layout e = Inr pe
                     \<and> lookup_gate_error props name pe = Inr ge) ves ges"
      and t2': "t2 = foldl (+) 0 ges"
      unfolding total_2q_error_loop_foldl by blast
    from tm obtain ms where
      ms: "list_all2 (\<lambda>q m. readout_error props q = Inr m) layout ms"
      and tm': "tm = foldl (+) 0 ms"
      unfolding total_measurement_error_loop_foldl by blast
    from ges have "list_all2 (\<lambda>e ge. \<exists>pe. physical_edge layout e = Inr pe
               \<and> (gate_error props name pe = Inr ge
                  \<or> (\<exists>x. gate_error props name pe = Inl x)
                    \<and> gate_error props name (snd pe, fst pe) = Inr ge)) ves ges"
      by (simp only: lookup_gate_error_Inr)
    with ms s t2' tm' show ?thesis by blast
  qed
  from props perm each
  show "\<exists>props. properties backend = Inr props
         \<and> mset (map fst out)
             = mset (filter (\<lambda>l. (\<forall>q \<in> set l. q \<notin> set brq)
                                   \<and> uses_bad_edge bce l ves = Inr False) layouts)
         \<and> (\<forall>(layout, score) \<in> set out. \<exists>ges ms.
               list_all2 (\<lambda>e ge. \<exists>pe. physical_edge layout e = Inr pe
                   \<and> (gate_error props name pe = Inr ge
                      \<or> (\<exists>x. gate_error props name pe = Inl x)
                        \<and> gate_error props name (snd pe, fst pe) = Inr ge)) ves ges
               \<and> list_all2 (\<lambda>q m. readout_error props q = Inr m) layout ms
               \<and> score = foldl (+) 0 ges + foldl (+) 0 ms)"
    by blast
next
  assume hyps: "properties backend = Inr props
        \<and> (\<forall>layout \<in> set layouts. (\<forall>q \<in> set layout. q \<notin> set brq) \<longrightarrow>
              (\<forall>e \<in> set ves. \<exists>pe. physical_edge layout e = Inr pe))
        \<and> (\<forall>layout \<in> set layouts.
              (\<forall>q \<in> set layout. q \<notin> set brq) \<and> uses_bad_edge bce layout ves = Inr False \<longrightarrow>
              (\<forall>e \<in> set ves. \<forall>pe. physical_edge layout e = Inr pe \<longrightarrow>
                  (\<exists>ge. gate_error props name pe = Inr ge
                        \<or> gate_error props name (snd pe, fst pe) = Inr ge))
              \<and> (\<forall>q \<in> set layout. \<exists>m. readout_error props q = Inr m))"
  then have props: "properties backend = Inr props"
    and index: "\<forall>layout \<in> set layouts. (\<forall>q \<in> set layout. q \<notin> set brq) \<longrightarrow>
              (\<forall>e \<in> set ves. \<exists>pe. physical_edge layout e = Inr pe)"
    and found: "\<forall>layout \<in> set layouts.
              (\<forall>q \<in> set layout. q \<notin> set brq) \<and> uses_bad_edge bce layout ves = Inr False \<longrightarrow>
              (\<forall>e \<in> set ves. \<forall>pe. physical_edge layout e = Inr pe \<longrightarrow>
                  (\<exists>ge. gate_error props name pe = Inr ge
                        \<or> gate_error props name (snd pe, fst pe) = Inr ge))
              \<and> (\<forall>q \<in> set layout. \<exists>m. readout_error props q = Inr m)"
    by blast+
  have totals: "(\<exists>t2. total_2q_error_loop props name layout ves 0 = Inr t2)
        \<and> (\<exists>tm. total_measurement_error_loop props layout 0 = Inr tm)"
    if layout: "layout \<in> set layouts"
      and kept: "(\<forall>q \<in> set layout. q \<notin> set brq) \<and> uses_bad_edge bce layout ves = Inr False"
    for layout
  proof -
    from index layout kept have pes: "\<forall>e \<in> set ves. \<exists>pe. physical_edge layout e = Inr pe"
      by blast
    from found layout kept have
      gates: "\<forall>e \<in> set ves. \<forall>pe. physical_edge layout e = Inr pe \<longrightarrow>
                  (\<exists>ge. gate_error props name pe = Inr ge
                        \<or> gate_error props name (snd pe, fst pe) = Inr ge)"
      and readouts: "\<forall>q \<in> set layout. \<exists>m. readout_error props q = Inr m"
      by blast+
    have "\<forall>e \<in> set ves. \<exists>ge pe. physical_edge layout e = Inr pe
                     \<and> lookup_gate_error props name pe = Inr ge"
    proof
      fix e
      assume e: "e \<in> set ves"
      with pes obtain pe where pe: "physical_edge layout e = Inr pe"
        by blast
      with gates e obtain ge where "gate_error props name pe = Inr ge
                        \<or> gate_error props name (snd pe, fst pe) = Inr ge"
        by blast
      then have "\<exists>ge. lookup_gate_error props name pe = Inr ge"
        by (cases "gate_error props name pe") (auto simp: lookup_gate_error_def)
      with pe show "\<exists>ge pe. physical_edge layout e = Inr pe
                     \<and> lookup_gate_error props name pe = Inr ge"
        by blast
    qed
    then have "\<exists>ges. list_all2 (\<lambda>e ge. \<exists>pe. physical_edge layout e = Inr pe
                     \<and> lookup_gate_error props name pe = Inr ge) ves ges"
      by (induction ves) (auto simp: list_all2_Cons1)
    then have t2: "\<exists>t2. total_2q_error_loop props name layout ves 0 = Inr t2"
      unfolding total_2q_error_loop_foldl by blast
    from readouts have "\<exists>ms. list_all2 (\<lambda>q m. readout_error props q = Inr m) layout ms"
      by (induction layout) (auto simp: list_all2_Cons1)
    then have "\<exists>tm. total_measurement_error_loop props layout 0 = Inr tm"
      unfolding total_measurement_error_loop_foldl by blast
    with t2 show ?thesis by blast
  qed
  from score_layouts_loop_returns [of layouts brq ves bce props name "[]"] index totals
  obtain scores where "score_layouts_loop props ves name brq bce layouts [] = Inr scores"
    by blast
  with props
  show "\<exists>result. lightweight_layout_error_scoring backend ves layouts name brq bce = Inr result"
    by (simp add: lightweight_layout_error_scoring_def)
qed

theorem lightweight_layout_error_scoring_score_witness:
  "lightweight_layout_error_scoring demo_float_backend [(0, 1), (1, 2)] [[3, 4, 2]] ''cz'' [] []
     = Inr [([3, 4, 2], PyFloat (2319353808095805 / 2251799813685248))]
   \<and> gate_error demo_float_props ''cz'' (3, 4) = Inr (float_div 7 100)
   \<and> gate_error demo_float_props ''cz'' (4, 2) = Inl (ExternalError ''BackendPropertyError'')
   \<and> gate_error demo_float_props ''cz'' (2, 4) = Inr (float_div 6 100)
   \<and> (\<exists>ges ms.
         list_all2 (\<lambda>e ge. \<exists>pe. physical_edge [3, 4, 2] e = Inr pe
             \<and> (gate_error demo_float_props ''cz'' pe = Inr ge
                \<or> (\<exists>x. gate_error demo_float_props ''cz'' pe = Inl x)
                  \<and> gate_error demo_float_props ''cz'' (snd pe, fst pe) = Inr ge))
           [(0, 1), (1, 2)] ges
         \<and> list_all2 (\<lambda>q m. readout_error demo_float_props q = Inr m) [3, 4, 2] ms
         \<and> PyFloat (2319353808095805 / 2251799813685248) = foldl (+) 0 ges + foldl (+) 0 ms)
   \<and> foldl (+) 0 [float_div 7 100, float_div 6 100]
       + foldl (+) 0 [float_div 3 10, float_div 4 10, float_div 2 10]
     = PyFloat (2319353808095805 / 2251799813685248)"
proof -
  note score = lightweight_layout_error_scoring_score
    [of demo_float_backend "[(0, 1), (1, 2)]" "[[3, 4, 2]]" "''cz''" "[]" "[]"
        "[([3, 4, 2], PyFloat (2319353808095805 / 2251799813685248))]" demo_float_props]
  have returns: "\<exists>result. lightweight_layout_error_scoring demo_float_backend [(0, 1), (1, 2)]
                   [[3, 4, 2]] ''cz'' [] [] = Inr result"
    using score
    by (simp add: demo_float_backend_def demo_float_props_def physical_edge_def py_index_def)
  have sums: "\<exists>ges ms.
         list_all2 (\<lambda>e ge. \<exists>pe. physical_edge [3, 4, 2] e = Inr pe
             \<and> (gate_error demo_float_props ''cz'' pe = Inr ge
                \<or> (\<exists>x. gate_error demo_float_props ''cz'' pe = Inl x)
                  \<and> gate_error demo_float_props ''cz'' (snd pe, fst pe) = Inr ge))
           [(0, 1), (1, 2)] ges
         \<and> list_all2 (\<lambda>q m. readout_error demo_float_props q = Inr m) [3, 4, 2] ms
         \<and> PyFloat (2319353808095805 / 2251799813685248) = foldl (+) 0 ges + foldl (+) 0 ms"
    using score demo_float_scoring
    by (simp add: demo_float_backend_def)
  have lookups: "gate_error demo_float_props ''cz'' (3, 4) = Inr (float_div 7 100)"
    "gate_error demo_float_props ''cz'' (4, 2) = Inl (ExternalError ''BackendPropertyError'')"
    "gate_error demo_float_props ''cz'' (2, 4) = Inr (float_div 6 100)"
    by (simp_all add: demo_float_props_def)
  have total: "foldl (+) 0 [float_div 7 100, float_div 6 100]
       + foldl (+) 0 [float_div 3 10, float_div 4 10, float_div 2 10]
     = PyFloat (2319353808095805 / 2251799813685248)"
    by (simp add: demo_float_gate_errors demo_float_readout_errors demo_float_score)
  from returns demo_float_scoring sums lookups total show ?thesis
    by blast
qed

text \<open>
  C2. The list that \<open>lightweight_layout_error_scoring\<close> returns is sorted by ascending error
  score, so the score of its first element is at most the score of every other element.
\<close>

theorem lightweight_layout_error_scoring_sorted:
  assumes "lightweight_layout_error_scoring backend ves layouts name brq bce = Inr out"
  shows "sorted (map snd out)
     \<and> (\<forall>first rest. out = first # rest \<longrightarrow> (\<forall>x \<in> set rest. snd first \<le> snd x))"
proof -
  from lightweight_layout_error_scoring_Inr [OF assms] obtain scores where
    out: "out = sort_key snd scores"
    by blast
  have sorted: "sorted (map snd out)"
    by (simp add: out)
  have "\<forall>x \<in> set rest. snd first \<le> snd x" if "out = first # rest" for first rest
    using sorted that by auto
  with sorted show ?thesis by blast
qed

theorem lightweight_layout_error_scoring_sorted_witness:
  "sorted (map snd [([2, 1, 0 :: nat], 34 / 100 :: real), ([0, 1, 2], 34 / 100),
                    ([1, 2, 3], 68 / 100)])
   \<and> snd ([2, 1, 0 :: nat], 34 / 100 :: real) \<le> snd ([0, 1, 2 :: nat], 34 / 100 :: real)
   \<and> snd ([2, 1, 0 :: nat], 34 / 100 :: real) \<le> snd ([1, 2, 3 :: nat], 68 / 100 :: real)"
  using lightweight_layout_error_scoring_sorted [OF demo_scoring]
  by simp

text \<open>
  The two filters. Every layout of the result is a layout of the input that contains no
  qubit of \<open>bad_readout_qubits\<close> and maps every virtual edge to a physical edge that is not
  an entry of \<open>bad_czgate_edges\<close> as a tuple, neither as it is nor reversed; an input
  layout with a bad qubit, or with a virtual edge mapped onto such an entry in either
  orientation, does not occur in the result.
\<close>

lemma lightweight_layout_error_scoring_filters:
  assumes "lightweight_layout_error_scoring backend ves layouts name brq bce = Inr out"
  shows "(\<forall>(layout, score) \<in> set out.
            layout \<in> set layouts
            \<and> (\<forall>q \<in> set layout. q \<notin> set brq)
            \<and> (\<forall>e \<in> set ves. \<exists>pe. physical_edge layout e = Inr pe
                  \<and> edge_tuple pe \<notin> set bce \<and> edge_tuple (snd pe, fst pe) \<notin> set bce))
     \<and> (\<forall>layout \<in> set layouts.
            (\<exists>q \<in> set layout. q \<in> set brq)
            \<or> (\<exists>e \<in> set ves. \<exists>pe. physical_edge layout e = Inr pe
                  \<and> (edge_tuple pe \<in> set bce \<or> edge_tuple (snd pe, fst pe) \<in> set bce))
            \<longrightarrow> layout \<notin> fst ` set out)"
proof -
  from lightweight_layout_error_scoring_Inr [OF assms] obtain props scores where
    loop: "score_layouts_loop props ves name brq bce layouts [] = Inr scores" and
    out: "out = sort_key snd scores"
    by blast
  from score_layouts_loop_Inr [OF loop] have
    kept: "map fst scores = filter (\<lambda>l. (\<forall>q \<in> set l. q \<notin> set brq)
                                \<and> uses_bad_edge bce l ves = Inr False) layouts"
    by auto
  have "fst ` set out = set (map fst scores)"
    by (simp add: out)
  then have fst_out: "fst ` set out = {l \<in> set layouts. (\<forall>q \<in> set l. q \<notin> set brq)
                                \<and> uses_bad_edge bce l ves = Inr False}"
    by (simp only: kept set_filter)
  have good: "layout \<in> set layouts \<and> (\<forall>q \<in> set layout. q \<notin> set brq)
            \<and> (\<forall>e \<in> set ves. \<exists>pe. physical_edge layout e = Inr pe
                  \<and> edge_tuple pe \<notin> set bce \<and> edge_tuple (snd pe, fst pe) \<notin> set bce)"
    if "layout \<in> fst ` set out" for layout
    using that uses_bad_edge_False [of bce layout ves] unfolding fst_out by blast
  have first: "\<forall>(layout, score) \<in> set out.
            layout \<in> set layouts
            \<and> (\<forall>q \<in> set layout. q \<notin> set brq)
            \<and> (\<forall>e \<in> set ves. \<exists>pe. physical_edge layout e = Inr pe
                  \<and> edge_tuple pe \<notin> set bce \<and> edge_tuple (snd pe, fst pe) \<notin> set bce)"
  proof (intro ballI, clarify)
    fix layout score
    assume "(layout, score) \<in> set out"
    then have "layout \<in> fst ` set out" by force
    from good [OF this]
    show "layout \<in> set layouts \<and> (\<forall>q \<in> set layout. q \<notin> set brq)
            \<and> (\<forall>e \<in> set ves. \<exists>pe. physical_edge layout e = Inr pe
                  \<and> edge_tuple pe \<notin> set bce \<and> edge_tuple (snd pe, fst pe) \<notin> set bce)" .
  qed
  have second: "layout \<notin> fst ` set out"
    if "layout \<in> set layouts"
      and bad: "(\<exists>q \<in> set layout. q \<in> set brq)
            \<or> (\<exists>e \<in> set ves. \<exists>pe. physical_edge layout e = Inr pe
                  \<and> (edge_tuple pe \<in> set bce \<or> edge_tuple (snd pe, fst pe) \<in> set bce))"
    for layout
  proof
    assume "layout \<in> fst ` set out"
    from good [OF this] bad show False by fastforce
  qed
  from first second show ?thesis by blast
qed

text \<open>
  C9. The claim is that no layout of the result maps a virtual edge onto a physical edge
  listed in \<open>bad_czgate_edges\<close>, in either orientation. The code looks the physical edge up
  as a tuple, so a coupling listed as a list is never found. Here the coupling between the
  qubits 4 and 3 is listed as \<open>[4, 3]\<close>: the layout \<open>[4, 3, 2]\<close>, whose first virtual edge
  lies on that coupling, is returned with its score. With the same coupling listed as
  \<open>(4, 3)\<close> the layout is excluded.
\<close>

theorem lightweight_layout_error_scoring_bad_edge_as_list:
  "lightweight_layout_error_scoring demo_backend [(0, 1), (1, 2)] [[4, 3, 2]] ''cz'' []
     [PyList [4, 3]] = Inr [([4, 3, 2], 102 / 100)]
   \<and> physical_edge [4, 3, 2 :: nat] (0, 1) = Inr (4, 3)
   \<and> lightweight_layout_error_scoring demo_backend [(0, 1), (1, 2)] [[4, 3, 2]] ''cz'' []
        [PyTuple [4, 3]] = Inr []"
  by (simp add: lightweight_layout_error_scoring_def demo_backend_def demo_props_def
      physical_edge_def py_index_def lookup_gate_error_def edge_tuple_def)

section \<open>Properties of get_zigzag_physical_layout\<close>

lemma fill_layout_length:
  "fill_layout initial_layout items = Inr layout \<Longrightarrow> length layout = length initial_layout"
  by (induction initial_layout items rule: fill_layout.induct) (auto split: if_splits)

lemma layouts_loop_length:
  assumes "layouts_loop layout_len mappings acc = Inr layouts"
  shows "\<forall>l \<in> set layouts. l \<in> set acc \<or> length l = nat layout_len"
  using assms
proof (induction mappings arbitrary: acc)
  case Nil
  then show ?case by simp
next
  case (Cons mapping mappings)
  from Cons.prems obtain il where il: "fill_layout (replicate (nat layout_len) None) mapping = Inr il"
    and rest: "layouts_loop layout_len mappings (acc @ [il]) = Inr layouts"
    by (auto split: sum.splits)
  from fill_layout_length [OF il] have "length il = nat layout_len" by simp
  with Cons.IH [OF rest] show ?case by auto
qed

lemma py_index_0: "py_index xs 0 = Inr x \<Longrightarrow> xs \<noteq> [] \<and> x = hd xs"
  by (cases xs) (auto simp: py_index_def split: if_splits)

lemma scoring_layouts_subset:
  assumes "lightweight_layout_error_scoring backend ves layouts name brq bce = Inr out"
  shows "fst ` set out \<subseteq> set layouts"
proof -
  from lightweight_layout_error_scoring_Inr [OF assms] obtain props scores where
    loop: "score_layouts_loop props ves name brq bce layouts [] = Inr scores" and
    out: "out = sort_key snd scores"
    by blast
  from score_layouts_loop_Inr [OF loop] have
    "map fst scores = filter (\<lambda>l. (\<forall>q \<in> set l. q \<notin> set brq)
                                \<and> uses_bad_edge bce l ves = Inr False) layouts"
    by auto
  then have "set (map fst scores) \<subseteq> set layouts"
    by (simp only: set_filter) blast
  then show ?thesis by (simp add: out)
qed

lemma create_lucj_zigzag_layout_count:
  assumes "create_lucj_zigzag_layout is_iso N bcg = Some (Inr (G_new, k))"
  shows "0 \<le> k \<and> (0 < k \<longrightarrow> 0 < N)"
proof -
  from create_linear_chains_total [of N] obtain G where G: "create_linear_chains N = Inr G"
    and len: "0 \<le> N \<longrightarrow> int (length (pg_nodes G)) = 2 * N"
    by blast
  with assms have run: "lucj_loop is_iso N bcg G N = Some (Inr (G_new, k))"
    by (simp add: create_lucj_zigzag_layout_def)
  from lucj_loop_Some [OF run] obtain j where j: "j \<le> N"
    and r: "add_alpha_beta N (py_range 0 j) (G, 0) = Inr (G_new, k)"
    by blast
  from zigzag_step_ok [OF len j] r show ?thesis by auto
qed

lemma py_slice_upto_neg:
  "0 < k \<Longrightarrow> py_slice_upto xs (- k) = take (length xs - nat k) xs"
  by (simp add: py_slice_upto_def nat_diff_distrib')

lemma py_slice_upto_0: "py_slice_upto xs (- 0) = []"
  by (simp add: py_slice_upto_def)

lemma zigzag_layout_of_Inr:
  assumes "zigzag_layout_of lib n backend score_layouts anc brq bce bcg G k = Inr (layout, k')"
  shows "\<exists>layouts selected.
           layouts_loop (2 * (n + anc) + k) (vf2_mapping lib bcg G) [] = Inr layouts
         \<and> selected \<in> set layouts
         \<and> (if score_layouts
            then \<exists>name scores. lightweight_layout_error_scoring backend
                     (map (\<lambda>(a, b). (int a, int b)) (pg_edges G)) layouts name brq bce
                       = Inr scores \<and> scores \<noteq> [] \<and> selected = fst (hd scores)
            else selected = hd layouts)
         \<and> layout = py_slice_upto selected (- k) \<and> k' = k"
proof -
  from assms obtain layouts where
    layouts: "layouts_loop (2 * (n + anc) + k) (vf2_mapping lib bcg G) [] = Inr layouts"
    by (auto simp: zigzag_layout_of_def Let_def split: sum.splits)
  from assms layouts obtain g gs where
    gates: "filter (\<lambda>g. g \<in> set (basis_gates backend)) IBM_TWO_Q_GATES = g # gs"
    by (auto simp: zigzag_layout_of_def Let_def split: sum.splits list.splits)
  let ?name = "set_pop lib (g # gs)"
  let ?edges = "map (\<lambda>(a, b). (int a, int b)) (pg_edges G)"
  have eq: "zigzag_layout_of lib n backend score_layouts anc brq bce bcg G k =
      (if score_layouts then
         (case lightweight_layout_error_scoring backend ?edges layouts ?name brq bce of
            Inl e \<Rightarrow> Inl e
          | Inr scores \<Rightarrow>
              (case py_index scores 0 of
                 Inl e \<Rightarrow> Inl e
               | Inr best \<Rightarrow> Inr (py_slice_upto (fst best) (- k), k)))
       else
         (case py_index layouts 0 of
            Inl e \<Rightarrow> Inl e
          | Inr first \<Rightarrow> Inr (py_slice_upto first (- k), k)))"
    unfolding zigzag_layout_of_def Let_def layouts gates by simp
  show ?thesis
  proof (cases score_layouts)
    case True
    with assms eq have run:
      "(case lightweight_layout_error_scoring backend ?edges layouts ?name brq bce of
            Inl e \<Rightarrow> Inl e
          | Inr scores \<Rightarrow>
              (case py_index scores 0 of
                 Inl e \<Rightarrow> Inl e
               | Inr best \<Rightarrow> Inr (py_slice_upto (fst best) (- k), k))) = Inr (layout, k')"
      by simp
    obtain scores where
      scores: "lightweight_layout_error_scoring backend ?edges layouts ?name brq bce
                 = Inr scores"
      using run
      by (cases "lightweight_layout_error_scoring backend ?edges layouts ?name brq bce")
        simp_all
    obtain best where best: "py_index scores 0 = Inr best"
      using run by (cases "py_index scores 0") (simp_all add: scores)
    have res: "layout = py_slice_upto (fst best) (- k)" "k' = k"
      using run by (auto simp: scores best)
    from py_index_0 [OF best] have ne: "scores \<noteq> []" and hd: "best = hd scores" by simp_all
    from ne hd have "fst best \<in> fst ` set scores" by simp
    with scoring_layouts_subset [OF scores] have sel: "fst best \<in> set layouts" by blast
    have "\<exists>name scores. lightweight_layout_error_scoring backend ?edges layouts name brq bce
                       = Inr scores \<and> scores \<noteq> [] \<and> fst best = fst (hd scores)"
      using scores ne hd by blast
    with layouts True sel res show ?thesis
      by (intro exI [of _ layouts] exI [of _ "fst best"]) simp
  next
    case False
    with assms eq have run:
      "(case py_index layouts 0 of
            Inl e \<Rightarrow> Inl e
          | Inr first \<Rightarrow> Inr (py_slice_upto first (- k), k)) = Inr (layout, k')"
      by simp
    obtain first where first: "py_index layouts 0 = Inr first"
      using run by (cases "py_index layouts 0") simp_all
    have res: "layout = py_slice_upto first (- k)" "k' = k"
      using run by (auto simp: first)
    from py_index_0 [OF first] have "layouts \<noteq> []" and "first = hd layouts" by simp_all
    with layouts False res show ?thesis
      by (intro exI [of _ layouts] exI [of _ first]) simp
  qed
qed

lemma get_zigzag_physical_layout_Inr:
  assumes "get_zigzag_physical_layout lib n backend score_layouts anc brq bce
             = Some (Inr (layout, k))"
  shows "\<exists>bcg G k0. cmap_pygraph backend = Inr bcg
     \<and> create_lucj_zigzag_layout (is_subgraph_isomorphic lib) (n + anc) bcg = Some (Inr (G, k0))
     \<and> zigzag_layout_of lib n backend score_layouts anc brq bce bcg G k0 = Inr (layout, k)"
proof (cases "cmap_pygraph backend")
  case (Inl e)
  with assms show ?thesis by (simp add: get_zigzag_physical_layout_def)
next
  case (Inr bcg)
  show ?thesis
  proof (cases "create_lucj_zigzag_layout (is_subgraph_isomorphic lib) (n + anc) bcg")
    case None
    with assms Inr show ?thesis by (simp add: get_zigzag_physical_layout_def)
  next
    case (Some r)
    show ?thesis
    proof (cases r)
      case (Inl e)
      with assms Inr Some show ?thesis by (simp add: get_zigzag_physical_layout_def)
    next
      case Gk: (Inr p)
      obtain G k0 where p: "p = (G, k0)" by (cases p)
      from assms Inr Some Gk p
      have "zigzag_layout_of lib n backend score_layouts anc brq bce bcg G k0 = Inr (layout, k)"
        by (simp add: get_zigzag_physical_layout_def)
      with Inr Some Gk p show ?thesis by blast
    qed
  qed
qed

text \<open>
  C8. Whenever \<open>get_zigzag_physical_layout\<close> returns, the layout it returns is the selected
  layout (the first layout by score, or the first layout found) cut by the slice
  \<open>[:-num_alpha_beta_qubits]\<close>, where the selected layout has
  \<open>2 * (num_orbitals + num_ancillas) + num_alpha_beta_qubits\<close> entries. When
  \<open>num_alpha_beta_qubits > 0\<close> the last \<open>num_alpha_beta_qubits\<close> entries are removed and
  \<open>2 * (num_orbitals + num_ancillas)\<close> entries remain; when \<open>num_alpha_beta_qubits = 0\<close> the
  returned layout is empty, and so differs from the selected layout whenever there is at
  least one orbital.
\<close>

theorem get_zigzag_physical_layout_slice:
  assumes "get_zigzag_physical_layout lib n backend score_layouts anc brq bce
             = Some (Inr (layout, k))"
  shows "\<exists>bcg G layouts selected.
       cmap_pygraph backend = Inr bcg
     \<and> create_lucj_zigzag_layout (is_subgraph_isomorphic lib) (n + anc) bcg = Some (Inr (G, k))
     \<and> layouts_loop (2 * (n + anc) + k) (vf2_mapping lib bcg G) [] = Inr layouts
     \<and> selected \<in> set layouts
     \<and> (if score_layouts
        then \<exists>name scores. lightweight_layout_error_scoring backend
                 (map (\<lambda>(a, b). (int a, int b)) (pg_edges G)) layouts name brq bce
                   = Inr scores \<and> scores \<noteq> [] \<and> selected = fst (hd scores)
        else selected = hd layouts)
     \<and> length selected = nat (2 * (n + anc) + k)
     \<and> 0 \<le> k
     \<and> (0 < k \<longrightarrow> layout = take (length selected - nat k) selected
                  \<and> int (length layout) = 2 * (n + anc))
     \<and> (k = 0 \<longrightarrow> layout = [] \<and> (0 < n + anc \<longrightarrow> layout \<noteq> selected))"
proof -
  from get_zigzag_physical_layout_Inr [OF assms] obtain bcg G k0 where
    bcg: "cmap_pygraph backend = Inr bcg" and
    lucj: "create_lucj_zigzag_layout (is_subgraph_isomorphic lib) (n + anc) bcg
             = Some (Inr (G, k0))" and
    rest: "zigzag_layout_of lib n backend score_layouts anc brq bce bcg G k0 = Inr (layout, k)"
    by blast
  from zigzag_layout_of_Inr [OF rest] obtain layouts selected where
    layouts: "layouts_loop (2 * (n + anc) + k0) (vf2_mapping lib bcg G) [] = Inr layouts" and
    sel: "selected \<in> set layouts" and
    how: "if score_layouts
        then \<exists>name scores. lightweight_layout_error_scoring backend
                 (map (\<lambda>(a, b). (int a, int b)) (pg_edges G)) layouts name brq bce
                   = Inr scores \<and> scores \<noteq> [] \<and> selected = fst (hd scores)
        else selected = hd layouts" and
    slice: "layout = py_slice_upto selected (- k0)" and k: "k = k0"
    by blast
  from layouts_loop_length [OF layouts] sel
  have len: "length selected = nat (2 * (n + anc) + k)"
    by (simp add: k)
  from create_lucj_zigzag_layout_count [OF lucj]
  have k0: "0 \<le> k" "0 < k \<longrightarrow> 0 < n + anc"
    by (simp_all add: k)
  have pos: "layout = take (length selected - nat k) selected
             \<and> int (length layout) = 2 * (n + anc)" if "0 < k"
  proof -
    from that have "layout = take (length selected - nat k) selected"
      by (simp add: slice k [symmetric] py_slice_upto_neg)
    moreover from that k0 have "int (length selected - nat k) = 2 * (n + anc)"
      by (simp add: len)
    ultimately show ?thesis by simp
  qed
  have zero: "layout = [] \<and> (0 < n + anc \<longrightarrow> layout \<noteq> selected)" if "k = 0"
  proof -
    from that have empty: "layout = []"
      using py_slice_upto_0 [of selected] by (simp add: slice k [symmetric])
    moreover have "selected \<noteq> []" if "0 < n + anc"
      using that \<open>k = 0\<close> len by auto
    ultimately show ?thesis by auto
  qed
  from bcg lucj layouts sel how len k0(1) pos zero show ?thesis
    unfolding k [symmetric] by blast
qed

lemma demo_zigzag_line:
  "get_zigzag_physical_layout demo_lib 1 (demo_qpu demo_line) True 0 [] []
     = Some (Inr ([Some 0, Some 2], 1))"
  by code_simp

lemma demo_zigzag_pair:
  "get_zigzag_physical_layout demo_lib 1 (demo_qpu demo_pair) True 0 [] []
     = Some (Inr ([], 0))"
  by code_simp

theorem get_zigzag_physical_layout_slice_witness:
  "get_zigzag_physical_layout demo_lib 1 (demo_qpu demo_line) True 0 [] []
     = Some (Inr ([Some 0, Some 2], 1))
   \<and> (\<exists>selected. length selected = 3 \<and> [Some 0, Some (2 :: nat)] = take 2 selected)
   \<and> get_zigzag_physical_layout demo_lib 1 (demo_qpu demo_pair) True 0 [] []
     = Some (Inr ([], 0))
   \<and> (\<exists>selected. length selected = 2 \<and> selected \<noteq> ([] :: nat option list))"
proof -
  from get_zigzag_physical_layout_slice [OF demo_zigzag_line]
  obtain selected :: "nat option list" where
    "length selected = nat (2 * (1 + 0) + 1)"
    "[Some 0, Some (2 :: nat)] = take (length selected - nat 1) selected"
    by auto
  then have one: "\<exists>selected. length selected = 3 \<and> [Some 0, Some (2 :: nat)] = take 2 selected"
    by (intro exI [of _ selected]) simp
  from get_zigzag_physical_layout_slice [OF demo_zigzag_pair]
  obtain selected :: "nat option list" where
    "length selected = nat (2 * (1 + 0) + 0)" "[] \<noteq> selected"
    by auto
  then have two: "\<exists>selected. length selected = 2 \<and> selected \<noteq> ([] :: nat option list)"
    by (intro exI [of _ selected]) auto
  from one two demo_zigzag_line demo_zigzag_pair show ?thesis by simp
qed

section \<open>Properties of the functions over the store\<close>

lemma get_append:
  "get_floats h a = Inr xs \<Longrightarrow> get_floats (h @ ext) a = Inr xs"
  "get_qubits h a = Inr qs \<Longrightarrow> get_qubits (h @ ext) a = Inr qs"
  "get_edges h a = Inr es \<Longrightarrow> get_edges (h @ ext) a = Inr es"
  "get_pairs h a = Inr ps \<Longrightarrow> get_pairs (h @ ext) a = Inr ps"
  "get_refs h a = Inr rs \<Longrightarrow> get_refs (h @ ext) a = Inr rs"
  by (auto simp: get_floats_def get_qubits_def get_edges_def get_pairs_def get_refs_def
      get_cell_def nth_append split: if_splits)

lemma get_floats_new: "get_floats (h @ [Floats xs]) (length h) = Inr xs"
  by (simp add: get_floats_def get_cell_def)

lemma fit_and_extrapolate_st_refines:
  assumes "get_floats h xa = Inr xs" and "get_floats h ya = Inr ys"
    and "fit_and_extrapolate_st cf f p0 maxfev xa ya h = (h1, r)"
  shows "(\<exists>ext. h1 = h @ ext)
     \<and> zne_outcome h1 r
         = snd (fit_and_extrapolate cf \<lparr>fit_f = f, fit_xdata = xs, fit_ydata = ys,
                                       fit_p0 = p0, fit_maxfev = maxfev\<rparr> ys)"
proof (cases "cf \<lparr>fit_f = f, fit_xdata = xs, fit_ydata = ys, fit_p0 = p0, fit_maxfev = maxfev\<rparr>")
  case (Inl e)
  with assms show ?thesis
    by (auto simp: fit_and_extrapolate_st_def fit_and_extrapolate_def zne_outcome_def)
next
  case (Inr popt)
  show ?thesis
  proof (cases "call_fit_fn f 0 popt")
    case (Inl e)
    with assms Inr show ?thesis
      by (auto simp: fit_and_extrapolate_st_def fit_and_extrapolate_def zne_outcome_def
          alloc_def)
  next
    case zv: (Inr zero_val)
    with assms Inr have h1: "h1 = h @ [Floats popt]"
      and r: "r = Inr (zero_val, ya, length h, f)"
      by (auto simp: fit_and_extrapolate_st_def alloc_def)
    have "zne_outcome h1 r = Inr (zero_val, ys, popt, f)"
      unfolding h1 r zne_outcome_def
      by (simp add: get_append(1) [OF assms(2)] get_floats_new)
    with h1 Inr zv show ?thesis
      by (simp add: fit_and_extrapolate_def)
  qed
qed

lemma zne_method_st_refines:
  assumes "get_floats h xa = Inr xs" and "get_floats h ya = Inr ys"
    and "zne_method_st cf method xa ya h = (h1, r)"
  shows "(\<exists>ext. h1 = h @ ext) \<and> zne_outcome h1 r = snd (zne_method cf method xs ys)"
proof -
  consider "method = ''linear''" | "method = ''quadratic''" | "method = ''exponential''"
    | "method \<noteq> ''linear''" "method \<noteq> ''quadratic''" "method \<noteq> ''exponential''"
    by blast
  then show ?thesis
  proof cases
    case 1
    with assms(3) fit_and_extrapolate_st_refines [OF assms(1,2)] show ?thesis
      by (simp add: zne_method_st_def zne_method_def)
  next
    case 2
    with assms(3) fit_and_extrapolate_st_refines [OF assms(1,2)] show ?thesis
      by (simp add: zne_method_st_def zne_method_def)
  next
    case 3
    with assms(3) fit_and_extrapolate_st_refines [OF assms(1,2)] show ?thesis
      by (simp add: zne_method_st_def zne_method_def)
  next
    case 4
    with assms(3) show ?thesis
      by (auto simp: zne_method_st_def zne_method_def zne_outcome_def)
  qed
qed

lemma insort_key_map:
  "insort_key k (f x) (map f xs) = map f (insort_key (\<lambda>a. k (f a)) x xs)"
  by (induction xs) simp_all

lemma sort_key_map: "sort_key k (map f xs) = map f (sort_key (\<lambda>a. k (f a)) xs)"
  by (induction xs) (simp_all add: insort_key_map)

lemma loop_store_append: "\<exists>ext. loop_store h kept = h @ ext"
  by (simp add: loop_store_def)

lemma get_loop_store:
  "get_qubits h a = Inr qs \<Longrightarrow> get_qubits (loop_store h kept) a = Inr qs"
  "get_edges h a = Inr es \<Longrightarrow> get_edges (loop_store h kept) a = Inr es"
  "get_pairs h a = Inr ps \<Longrightarrow> get_pairs (loop_store h kept) a = Inr ps"
  "get_refs h a = Inr rs \<Longrightarrow> get_refs (loop_store h kept) a = Inr rs"
  unfolding loop_store_def by (rule get_append; assumption)+

lemma get_refs_loop_store:
  "get_refs (loop_store h kept) (length h)
     = Inr [Suc (length h)..<Suc (length h) + length kept]"
  by (simp add: loop_store_def get_refs_def get_cell_def)

lemma get_entry_loop_store:
  assumes "i < length kept"
  shows "get_entry (loop_store h kept) (Suc (length h) + i) = Inr (kept ! i)"
proof -
  obtain la sc where "kept ! i = (la, sc)" by (cases "kept ! i")
  with assms show ?thesis
    by (simp add: loop_store_def get_entry_def get_cell_def nth_append)
qed

lemma loop_store_step:
  "(case alloc (loop_store h kept) (Entry la sc) of
      (h1, entry) \<Rightarrow> list_append h1 (length h) entry)
   = Inr (loop_store h (kept @ [(la, sc)]))"
proof -
  let ?n = "Suc (length h)"
  have len: "length (loop_store h kept) = ?n + length kept"
    by (simp add: loop_store_def)
  have refs: "get_refs (loop_store h kept @ [Entry la sc]) (length h)
      = Inr [?n..<?n + length kept]"
    by (simp add: loop_store_def get_refs_def get_cell_def nth_append)
  have "(loop_store h kept @ [Entry la sc])
          [length h := Refs ([?n..<?n + length kept] @ [?n + length kept])]
        = loop_store h (kept @ [(la, sc)])"
    by (simp add: loop_store_def list_update_append)
  then show ?thesis
    by (simp add: alloc_def list_append_def refs len)
qed

lemma score_layouts_loop_st_refines:
  assumes ves: "get_edges h va = Inr ves"
    and brq: "get_qubits h ba = Inr brq"
    and bce: "get_pairs h pa = Inr bce"
    and "list_all2 (\<lambda>la l. get_qubits h la = Inr l) las layouts"
    and "list_all2 (\<lambda>(la, sc) (l, sc'). get_qubits h la = Inr l \<and> sc' = sc) kept acc"
  shows "\<exists>kept'. score_layouts_loop_st props va name ba pa las (length h) (loop_store h kept)
           = (loop_store h kept',
              map_sum id (\<lambda>_. ()) (score_layouts_loop props ves name brq bce layouts acc))
         \<and> (\<forall>out. score_layouts_loop props ves name brq bce layouts acc = Inr out \<longrightarrow>
               list_all2 (\<lambda>(la, sc) (l, sc'). get_qubits h la = Inr l \<and> sc' = sc) kept' out)"
  using assms(4,5)
proof (induction las layouts arbitrary: kept acc rule: list_all2_induct)
  case Nil
  then show ?case by (intro exI [of _ kept]) simp
next
  case (Cons la las l layouts)
  let ?g = "loop_store h kept"
  note reads = get_loop_store(1) [OF Cons.hyps(1), of kept] get_loop_store(1) [OF brq, of kept]
    get_loop_store(2) [OF ves, of kept] get_loop_store(3) [OF bce, of kept]
  show ?case
  proof (cases "\<exists>q \<in> set l. q \<in> set brq")
    case True
    with Cons.IH [OF Cons.prems] reads show ?thesis by simp
  next
    case nobad: False
    show ?thesis
    proof (cases "uses_bad_edge bce l ves")
      case (Inl e)
      with nobad reads show ?thesis by (intro exI [of _ kept]) simp
    next
      case (Inr skip)
      show ?thesis
      proof (cases skip)
        case True
        with Cons.IH [OF Cons.prems] reads nobad Inr show ?thesis by simp
      next
        case noskip: False
        show ?thesis
        proof (cases "total_2q_error_loop props name l ves 0")
          case (Inl e)
          with nobad Inr noskip reads show ?thesis by (intro exI [of _ kept]) simp
        next
          case t2: (Inr t2)
          show ?thesis
          proof (cases "total_measurement_error_loop props l 0")
            case (Inl e)
            with nobad Inr noskip t2 reads show ?thesis by (intro exI [of _ kept]) simp
          next
            case tm: (Inr tm)
            have "list_all2 (\<lambda>(la, sc) (l, sc'). get_qubits h la = Inr l \<and> sc' = sc)
                    (kept @ [(la, t2 + tm)]) (acc @ [(l, t2 + tm)])"
              using Cons.prems Cons.hyps(1) by (simp add: list_all2_appendI)
            from Cons.IH [OF this] obtain kept' where
              run: "score_layouts_loop_st props va name ba pa las (length h)
                      (loop_store h (kept @ [(la, t2 + tm)]))
                    = (loop_store h kept',
                       map_sum id (\<lambda>_. ())
                         (score_layouts_loop props ves name brq bce layouts
                            (acc @ [(l, t2 + tm)])))" and
              rel: "\<forall>out. score_layouts_loop props ves name brq bce layouts
                            (acc @ [(l, t2 + tm)]) = Inr out \<longrightarrow>
                      list_all2 (\<lambda>(la, sc) (l, sc'). get_qubits h la = Inr l \<and> sc' = sc)
                        kept' out"
              by blast
            have step: "score_layouts_loop_st props va name ba pa (la # las) (length h) ?g
                = score_layouts_loop_st props va name ba pa las (length h)
                    (loop_store h (kept @ [(la, t2 + tm)]))"
              using nobad Inr noskip t2 tm reads loop_store_step [of h kept la "t2 + tm"]
              by (simp split: prod.splits)
            have pure: "score_layouts_loop props ves name brq bce (l # layouts) acc
                = score_layouts_loop props ves name brq bce layouts (acc @ [(l, t2 + tm)])"
              using nobad Inr noskip t2 tm by simp
            from run rel show ?thesis
              unfolding step pure by blast
          qed
        qed
      qed
    qed
  qed
qed

lemma get_entry_append:
  "get_entry h a = Inr e \<Longrightarrow> get_entry (h @ ext) a = Inr e"
  by (auto simp: get_entry_def get_cell_def nth_append split: if_splits)

lemma get_refs_new: "get_refs (h @ [Refs rs]) (length h) = Inr rs"
  by (simp add: get_refs_def get_cell_def)

lemma entry_keys_map:
  assumes "\<forall>x \<in> set xs. \<exists>la. get_entry g x = Inr (la, K x)"
  shows "entry_keys g xs = Inr (map (\<lambda>x. (x, K x)) xs)"
  using assms by (induction xs) auto

lemma read_entries_map:
  assumes "\<forall>x \<in> set xs. \<exists>la. get_entry g x = Inr (la, K x) \<and> get_qubits g la = Inr (Q x)"
  shows "read_entries g xs = Inr (map (\<lambda>x. (Q x, K x)) xs)"
  using assms by (induction xs) auto

lemma map_nth_shift: "map (\<lambda>x. out ! (x - n)) [n..<n + length out] = out"
proof -
  have "map (\<lambda>x. out ! (x - n)) [n..<n + length out] = map ((!) out) [0..<length out]"
    by (rule nth_equalityI) (simp_all add: nth_append)
  then show ?thesis by (simp add: map_nth)
qed

lemma sorted_by_score_loop_store:
  assumes rel: "list_all2 (\<lambda>(la, sc) (l, sc'). get_qubits h la = Inr l \<and> sc' = sc) kept out"
    and run: "sorted_by_score (loop_store h kept) (length h) = (h', r)"
  shows "(\<exists>ext. h' = h @ ext) \<and> scoring_outcome h' r = Inr (sort_key snd out)"
proof -
  let ?n = "Suc (length h)"
  let ?g = "loop_store h kept"
  define es where "es = [?n..<?n + length kept]"
  define K where "K x = snd (out ! (x - ?n))" for x
  define Q where "Q x = fst (out ! (x - ?n))" for x
  from rel have len: "length kept = length out"
    by (rule list_all2_lengthD)
  have refs: "get_refs ?g (length h) = Inr es"
    unfolding es_def by (rule get_refs_loop_store)
  have entry: "\<exists>la. get_entry ?g x = Inr (la, K x) \<and> get_qubits ?g la = Inr (Q x)"
    if "x \<in> set es" for x
  proof -
    define i where "i = x - ?n"
    from that have i: "i < length kept" and x: "x = ?n + i"
      by (auto simp: i_def es_def)
    obtain la sc where k: "kept ! i = (la, sc)" by (cases "kept ! i")
    obtain l sc' where o: "out ! i = (l, sc')" by (cases "out ! i")
    from list_all2_nthD [OF rel i] k o have "get_qubits h la = Inr l" and "sc' = sc"
      by simp_all
    with get_entry_loop_store [OF i, of h] k o show ?thesis
      by (auto simp: x K_def Q_def get_loop_store(1))
  qed
  have keys: "entry_keys ?g es = Inr (map (\<lambda>x. (x, K x)) es)"
    by (rule entry_keys_map) (use entry in blast)
  have sorted: "map fst (sort_key snd (map (\<lambda>x. (x, K x)) es)) = sort_key K es"
    by (simp add: sort_key_map comp_def)
  from run have h': "h' = ?g @ [Refs (sort_key K es)]" and r: "r = Inr (length ?g)"
    by (auto simp: sorted_by_score_def refs keys sorted alloc_def)
  have "read_entries h' (sort_key K es) = Inr (map (\<lambda>x. (Q x, K x)) (sort_key K es))"
  proof (rule read_entries_map, intro ballI)
    fix x
    assume "x \<in> set (sort_key K es)"
    then have "x \<in> set es" by simp
    from entry [OF this] obtain la where "get_entry ?g x = Inr (la, K x)"
      and "get_qubits ?g la = Inr (Q x)"
      by blast
    then show "\<exists>la. get_entry h' x = Inr (la, K x) \<and> get_qubits h' la = Inr (Q x)"
      unfolding h' by (intro exI [of _ la]) (simp add: get_entry_append get_append(2))
  qed
  also have "map (\<lambda>x. (Q x, K x)) (sort_key K es)
      = sort_key snd (map (\<lambda>x. (Q x, K x)) es)"
    by (simp add: sort_key_map)
  also have "map (\<lambda>x. (Q x, K x)) es = out"
    unfolding es_def Q_def K_def len using map_nth_shift [of out ?n] by simp
  finally have "read_entries h' (sort_key K es) = Inr (sort_key snd out)" .
  then have "scoring_outcome h' r = Inr (sort_key snd out)"
    unfolding r h' by (simp add: scoring_outcome_def get_refs_new)
  moreover have "\<exists>ext. h' = h @ ext"
    unfolding h' loop_store_def by simp
  ultimately show ?thesis by simp
qed

lemma lightweight_layout_error_scoring_st_refines:
  assumes ves: "get_edges h va = Inr ves"
    and las: "get_refs h la = Inr las"
    and layouts: "list_all2 (\<lambda>a l. get_qubits h a = Inr l) las layouts"
    and brq: "get_qubits h ba = Inr brq"
    and bce: "get_pairs h pa = Inr bce"
    and run: "lightweight_layout_error_scoring_st backend va la name ba pa h = (h', r)"
  shows "(\<exists>ext. h' = h @ ext)
     \<and> scoring_outcome h' r
         = lightweight_layout_error_scoring backend ves layouts name brq bce"
proof (cases "properties backend")
  case (Inl e)
  with run show ?thesis
    by (auto simp: lightweight_layout_error_scoring_st_def
        lightweight_layout_error_scoring_def scoring_outcome_def)
next
  case (Inr props)
  have start: "alloc h (Refs []) = (loop_store h [], length h)"
    by (simp add: alloc_def loop_store_def)
  from score_layouts_loop_st_refines [OF ves brq bce layouts, of "[]" "[]" props name]
  obtain kept where
    loop: "score_layouts_loop_st props va name ba pa las (length h) (loop_store h [])
             = (loop_store h kept,
                map_sum id (\<lambda>_. ()) (score_layouts_loop props ves name brq bce layouts []))"
    and rel: "\<forall>out. score_layouts_loop props ves name brq bce layouts [] = Inr out \<longrightarrow>
               list_all2 (\<lambda>(la, sc) (l, sc'). get_qubits h la = Inr l \<and> sc' = sc) kept out"
    by auto
  show ?thesis
  proof (cases "score_layouts_loop props ves name brq bce layouts []")
    case (Inl e)
    with run Inr start loop have "h' = loop_store h kept" and "r = Inl e"
      by (simp_all add: lightweight_layout_error_scoring_st_def get_loop_store(4) [OF las])
    with Inl Inr loop_store_append [of h kept] show ?thesis
      by (simp add: lightweight_layout_error_scoring_def scoring_outcome_def)
  next
    case out: (Inr out)
    with run Inr start loop have "sorted_by_score (loop_store h kept) (length h) = (h', r)"
      by (simp add: lightweight_layout_error_scoring_st_def get_loop_store(4) [OF las])
    from sorted_by_score_loop_store [OF _ this, of out] rel out Inr show ?thesis
      by (simp add: lightweight_layout_error_scoring_def)
  qed
qed

lemma demo_fit_calls:
  "zne_method_st demo_fit ''linear'' 0 1 demo_fit_store
     = (demo_fit_store @ [Floats [2, 3]], Inr (3, 1, 2, LinearModel))"
  "zne_method_st demo_fit ''linear'' 0 1 (demo_fit_store @ [Floats [2, 3]])
     = (demo_fit_store @ [Floats [2, 3], Floats [2, 3]], Inr (3, 1, 3, LinearModel))"
  by (simp_all add: zne_method_st_def fit_and_extrapolate_st_def demo_fit_store_def
      demo_fit_def get_floats_def get_cell_def alloc_def linear_model_def)

lemma demo_scoring_calls:
  "lightweight_layout_error_scoring_st demo_backend 0 9 ''cz'' 1 2 demo_scoring_store
     = (demo_scoring_store
          @ [Refs [11, 12, 13], Entry 4 (68 / 100), Entry 6 (34 / 100), Entry 8 (34 / 100),
             Refs [12, 13, 11]],
        Inr 14)"
  "lightweight_layout_error_scoring_st demo_backend 0 9 ''cz'' 1 2
     (demo_scoring_store
        @ [Refs [11, 12, 13], Entry 4 (68 / 100), Entry 6 (34 / 100), Entry 8 (34 / 100),
           Refs [12, 13, 11]])
     = (demo_scoring_store
          @ [Refs [11, 12, 13], Entry 4 (68 / 100), Entry 6 (34 / 100), Entry 8 (34 / 100),
             Refs [12, 13, 11],
             Refs [16, 17, 18], Entry 4 (68 / 100), Entry 6 (34 / 100), Entry 8 (34 / 100),
             Refs [17, 18, 16]],
        Inr 19)"
  by code_simp+

text \<open>
  C7. Take any store in which the arguments are lists of the expected kind (this includes
  the default list objects), and call \<open>zne_method\<close>, or
  \<open>lightweight_layout_error_scoring\<close>, twice in a row on the same argument objects. After
  the first call every object that existed before it is unchanged: the store has only
  grown at its end. The outcome of the call (the exception, or the values behind the
  returned references) is the value of the function above on the contents of the
  arguments, and the second call has the same outcome as the first.
\<close>

theorem calls_leave_arguments_unchanged:
  "(get_floats h xdata = Inr xs \<and> get_floats h ydata = Inr ys
      \<and> zne_method_st cf method xdata ydata h = (h1, r1)
      \<and> zne_method_st cf method xdata ydata h1 = (h2, r2)
    \<longrightarrow> (\<exists>ext. h1 = h @ ext)
        \<and> zne_outcome h1 r1 = snd (zne_method cf method xs ys)
        \<and> zne_outcome h2 r2 = zne_outcome h1 r1)
   \<and> (get_edges g virtual_edges = Inr ves
      \<and> get_refs g physical_layouts = Inr las
      \<and> list_all2 (\<lambda>a l. get_qubits g a = Inr l) las layouts
      \<and> get_qubits g bad_readout_qubits = Inr brq
      \<and> get_pairs g bad_czgate_edges = Inr bce
      \<and> lightweight_layout_error_scoring_st backend virtual_edges physical_layouts name
            bad_readout_qubits bad_czgate_edges g = (g1, s1)
      \<and> lightweight_layout_error_scoring_st backend virtual_edges physical_layouts name
            bad_readout_qubits bad_czgate_edges g1 = (g2, s2)
    \<longrightarrow> (\<exists>ext. g1 = g @ ext)
        \<and> scoring_outcome g1 s1
            = lightweight_layout_error_scoring backend ves layouts name brq bce
        \<and> scoring_outcome g2 s2 = scoring_outcome g1 s1)"
proof (intro conjI impI)
  assume a: "get_floats h xdata = Inr xs \<and> get_floats h ydata = Inr ys
      \<and> zne_method_st cf method xdata ydata h = (h1, r1)
      \<and> zne_method_st cf method xdata ydata h1 = (h2, r2)"
  then have xs: "get_floats h xdata = Inr xs" and ys: "get_floats h ydata = Inr ys"
    and run1: "zne_method_st cf method xdata ydata h = (h1, r1)"
    and run2: "zne_method_st cf method xdata ydata h1 = (h2, r2)"
    by simp_all
  from zne_method_st_refines [OF xs ys run1] obtain ext where ext: "h1 = h @ ext"
    and out1: "zne_outcome h1 r1 = snd (zne_method cf method xs ys)"
    by blast
  from xs ys have "get_floats h1 xdata = Inr xs" and "get_floats h1 ydata = Inr ys"
    unfolding ext by (simp_all add: get_append)
  from zne_method_st_refines [OF this run2]
  have out2: "zne_outcome h2 r2 = snd (zne_method cf method xs ys)"
    by simp
  from ext show "\<exists>ext. h1 = h @ ext" by blast
  from out1 show "zne_outcome h1 r1 = snd (zne_method cf method xs ys)" .
  from out1 out2 show "zne_outcome h2 r2 = zne_outcome h1 r1" by simp
next
  assume a: "get_edges g virtual_edges = Inr ves
      \<and> get_refs g physical_layouts = Inr las
      \<and> list_all2 (\<lambda>a l. get_qubits g a = Inr l) las layouts
      \<and> get_qubits g bad_readout_qubits = Inr brq
      \<and> get_pairs g bad_czgate_edges = Inr bce
      \<and> lightweight_layout_error_scoring_st backend virtual_edges physical_layouts name
            bad_readout_qubits bad_czgate_edges g = (g1, s1)
      \<and> lightweight_layout_error_scoring_st backend virtual_edges physical_layouts name
            bad_readout_qubits bad_czgate_edges g1 = (g2, s2)"
  then have ves: "get_edges g virtual_edges = Inr ves"
    and las: "get_refs g physical_layouts = Inr las"
    and layouts: "list_all2 (\<lambda>a l. get_qubits g a = Inr l) las layouts"
    and brq: "get_qubits g bad_readout_qubits = Inr brq"
    and bce: "get_pairs g bad_czgate_edges = Inr bce"
    and run1: "lightweight_layout_error_scoring_st backend virtual_edges physical_layouts name
            bad_readout_qubits bad_czgate_edges g = (g1, s1)"
    and run2: "lightweight_layout_error_scoring_st backend virtual_edges physical_layouts name
            bad_readout_qubits bad_czgate_edges g1 = (g2, s2)"
    by simp_all
  from lightweight_layout_error_scoring_st_refines [OF ves las layouts brq bce run1]
  obtain ext where ext: "g1 = g @ ext"
    and out1: "scoring_outcome g1 s1
            = lightweight_layout_error_scoring backend ves layouts name brq bce"
    by blast
  have ves1: "get_edges g1 virtual_edges = Inr ves"
    and las1: "get_refs g1 physical_layouts = Inr las"
    and brq1: "get_qubits g1 bad_readout_qubits = Inr brq"
    and bce1: "get_pairs g1 bad_czgate_edges = Inr bce"
    unfolding ext using ves las brq bce by (simp_all add: get_append)
  have layouts1: "list_all2 (\<lambda>a l. get_qubits g1 a = Inr l) las layouts"
    unfolding ext using layouts by (rule list_all2_mono) (simp add: get_append)
  from lightweight_layout_error_scoring_st_refines [OF ves1 las1 layouts1 brq1 bce1 run2]
  have out2: "scoring_outcome g2 s2
            = lightweight_layout_error_scoring backend ves layouts name brq bce"
    by simp
  from ext show "\<exists>ext. g1 = g @ ext" by blast
  from out1 show "scoring_outcome g1 s1
            = lightweight_layout_error_scoring backend ves layouts name brq bce" .
  from out1 out2 show "scoring_outcome g2 s2 = scoring_outcome g1 s1" by simp
qed

theorem calls_leave_arguments_unchanged_witness:
  "zne_outcome (demo_fit_store @ [Floats [2, 3]]) (Inr (3, 1, 2, LinearModel))
     = snd (zne_method demo_fit ''linear'' [1, 2] [5, 7])
   \<and> zne_outcome (demo_fit_store @ [Floats [2, 3], Floats [2, 3]])
         (Inr (3, 1, 3, LinearModel))
     = zne_outcome (demo_fit_store @ [Floats [2, 3]]) (Inr (3, 1, 2, LinearModel))
   \<and> scoring_outcome
         (demo_scoring_store
            @ [Refs [11, 12, 13], Entry 4 (68 / 100), Entry 6 (34 / 100),
               Entry 8 (34 / 100), Refs [12, 13, 11]]) (Inr 14)
     = lightweight_layout_error_scoring demo_backend [(0, 1), (1, 2)] demo_layouts ''cz''
         [5] [PyTuple [4, 3]]
   \<and> scoring_outcome
         (demo_scoring_store
            @ [Refs [11, 12, 13], Entry 4 (68 / 100), Entry 6 (34 / 100),
               Entry 8 (34 / 100), Refs [12, 13, 11],
               Refs [16, 17, 18], Entry 4 (68 / 100), Entry 6 (34 / 100),
               Entry 8 (34 / 100), Refs [17, 18, 16]]) (Inr 19)
     = scoring_outcome
         (demo_scoring_store
            @ [Refs [11, 12, 13], Entry 4 (68 / 100), Entry 6 (34 / 100),
               Entry 8 (34 / 100), Refs [12, 13, 11]]) (Inr 14)"
proof -
  have fit_args: "get_floats demo_fit_store 0 = Inr [1, 2]"
    "get_floats demo_fit_store 1 = Inr [5, 7]"
    by (simp_all add: demo_fit_store_def get_floats_def get_cell_def)
  have scoring_args: "get_edges demo_scoring_store 0 = Inr [(0, 1), (1, 2)]"
    "get_refs demo_scoring_store 9 = Inr [3, 4, 5, 6, 7, 8]"
    "list_all2 (\<lambda>a l. get_qubits demo_scoring_store a = Inr l) [3, 4, 5, 6, 7, 8]
       demo_layouts"
    "get_qubits demo_scoring_store 1 = Inr [5]"
    "get_pairs demo_scoring_store 2 = Inr [PyTuple [4, 3]]"
    by (simp_all add: demo_scoring_store_def demo_layouts_def get_edges_def get_refs_def
        get_qubits_def get_pairs_def get_cell_def)
  show ?thesis
    using calls_leave_arguments_unchanged
      [of demo_fit_store 0 "[1, 2]" 1 "[5, 7]" demo_fit "''linear''",
       where ?h1.0 = "demo_fit_store @ [Floats [2, 3]]"
         and ?r1.0 = "Inr (3, 1, 2, LinearModel)"
         and ?h2.0 = "demo_fit_store @ [Floats [2, 3], Floats [2, 3]]"
         and ?r2.0 = "Inr (3, 1, 3, LinearModel)"
         and g = demo_scoring_store and virtual_edges = 0 and physical_layouts = 9
         and bad_readout_qubits = 1 and bad_czgate_edges = 2
         and ves = "[(0, 1), (1, 2)]" and las = "[3, 4, 5, 6, 7, 8]"
         and layouts = demo_layouts and brq = "[5]" and bce = "[PyTuple [4, 3]]"
         and backend = demo_backend and name = "''cz''"
         and ?g1.0 = "demo_scoring_store
            @ [Refs [11, 12, 13], Entry 4 (68 / 100), Entry 6 (34 / 100),
               Entry 8 (34 / 100), Refs [12, 13, 11]]"
         and ?s1.0 = "Inr 14"
         and ?g2.0 = "demo_scoring_store
            @ [Refs [11, 12, 13], Entry 4 (68 / 100), Entry 6 (34 / 100),
               Entry 8 (34 / 100), Refs [12, 13, 11],
               Refs [16, 17, 18], Entry 4 (68 / 100), Entry 6 (34 / 100),
               Entry 8 (34 / 100), Refs [17, 18, 16]]"
         and ?s2.0 = "Inr 19"]
      fit_args scoring_args demo_fit_calls demo_scoring_calls
    by simp
qed


end
